theory Spec2Isabelle
  imports Main "HOL-Library.Sublist"
begin

section \<open>JavaScript values used by the admin order actions\<close>

text \<open>
  Strings are \<open>string\<close>; one \<open>char\<close> stands for one UTF-16 code unit below 256.
  In that range \<open>String.prototype.trim\<close> strips TAB, LF, VT, FF, CR, SPACE and NBSP.
\<close>

definition isWhiteSpace :: "char \<Rightarrow> bool" where
  "isWhiteSpace c = (of_char c \<in> {9, 10, 11, 12, 13, 32, 160 :: nat})"

definition trim :: "string \<Rightarrow> string" where
  "trim s = rev (dropWhile isWhiteSpace (rev (dropWhile isWhiteSpace s)))"

text \<open>Truthiness of a string (\<open>!s\<close> is true for the empty string only).\<close>

definition truthy :: "string \<Rightarrow> bool" where
  "truthy s = (s \<noteq> [])"

text \<open>Truthiness of a nullable string: \<open>null\<close>, \<open>undefined\<close> and \<open>""\<close> are falsy.\<close>

definition truthy_opt :: "string option \<Rightarrow> bool" where
  "truthy_opt s = (case s of None \<Rightarrow> False | Some t \<Rightarrow> truthy t)"

text \<open>\<open>a || b\<close> on a nullable string with a string default.\<close>

definition or_else :: "string option \<Rightarrow> string \<Rightarrow> string" where
  "or_else a b = (case a of None \<Rightarrow> b | Some t \<Rightarrow> if truthy t then t else b)"

text \<open>
  \<open>s.replace(pat, rep)\<close> with a string pattern: the first occurrence of \<open>pat\<close> is
  replaced (the replacement strings of the source hold no \<open>$\<close> pattern).
\<close>

fun replace :: "string \<Rightarrow> string \<Rightarrow> string \<Rightarrow> string" where
  "replace pat rep [] = (if pat = [] then rep else [])"
| "replace pat rep (c # cs) =
     (if prefix pat (c # cs) then rep @ drop (length pat) (c # cs)
      else c # replace pat rep cs)"

definition endsWith :: "string \<Rightarrow> string \<Rightarrow> bool" where
  "endsWith s suf = suffix suf s"

text \<open>
  A parsed JSON document. Numbers are restricted to the integers; an object is the
  list of its own properties, with distinct keys.
\<close>

datatype json =
    JNull
  | JBool bool
  | JNum int
  | JStr string
  | JArr "json list"
  | JObj "(string \<times> json) list"

text \<open>Truthiness of a JavaScript value; \<open>None\<close> is \<open>undefined\<close>.\<close>

fun truthy_js :: "json option \<Rightarrow> bool" where
  "truthy_js None = False"
| "truthy_js (Some JNull) = False"
| "truthy_js (Some (JBool b)) = b"
| "truthy_js (Some (JNum n)) = (n \<noteq> 0)"
| "truthy_js (Some (JStr s)) = (s \<noteq> [])"
| "truthy_js (Some (JArr xs)) = True"
| "truthy_js (Some (JObj kvs)) = True"

text \<open>Decimal digits of a natural number and of an integer, as \<open>String(n)\<close> prints them.\<close>

fun digits :: "nat \<Rightarrow> string" where
  "digits n = (if n < 10 then [char_of (48 + n)] else digits (n div 10) @ [char_of (48 + n mod 10)])"

definition show_int :: "int \<Rightarrow> string" where
  "show_int i = (if i < 0 then CHR ''-'' # digits (nat (- i)) else digits (nat i))"

fun intersperse :: "string \<Rightarrow> string list \<Rightarrow> string" where
  "intersperse sep [] = []"
| "intersperse sep [x] = x"
| "intersperse sep (x # y # ys) = x @ sep @ intersperse sep (y # ys)"

text \<open>
  String conversion of a value inside a template literal. Inside an array, \<open>null\<close>
  prints as the empty string.
\<close>

fun toString :: "json \<Rightarrow> string" where
  "toString JNull = ''null''"
| "toString (JBool b) = (if b then ''true'' else ''false'')"
| "toString (JNum n) = show_int n"
| "toString (JStr s) = s"
| "toString (JArr xs) = intersperse '','' (map (\<lambda>x. if x = JNull then [] else toString x) xs)"
| "toString (JObj kvs) = ''[object Object]''"

definition toString_js :: "json option \<Rightarrow> string" where
  "toString_js v = (case v of None \<Rightarrow> ''undefined'' | Some x \<Rightarrow> toString x)"

section \<open>Errors\<close>

text \<open>
  Every \<open>throw new Error(m)\<close> of the source is \<open>Error m\<close>; a failing store statement throws
  an \<open>Error\<close> whose message the store chooses. \<open>Unauthorized\<close> is what the authorization
  gate raises.
\<close>

datatype error = Unauthorized | Error string

text \<open>\<open>e.message\<close> of a caught value; \<open>None\<close> is \<open>undefined\<close>.\<close>

fun message :: "error \<Rightarrow> string option" where
  "message Unauthorized = None"
| "message (Error m) = Some m"

text \<open>The spec's names for the errors the guards of the source throw.\<close>

definition InvalidArgument :: error where
  "InvalidArgument = Error ''Missing order id''"

definition NotFound :: error where
  "NotFound = Error ''Order not found''"

definition PreconditionFailed :: error where
  "PreconditionFailed = Error ''Missing card key; cannot mark delivered''"

definition ConfigurationError :: error where
  "ConfigurationError = Error ''Missing merchant config''"

section \<open>The persistent store\<close>

text \<open>
  Modelled from the spec: the table declarations of \<open>@/lib/db/schema\<close> are not part of
  the sources at hand. The rows carry the columns the actions read and write, with
  the types of the spec's data model; a table is the list of its rows.
\<close>

datatype order_status = Pending | Paid | Delivered | Cancelled | Refunded

record order =
  orderId :: string
  status :: order_status
  paidAt :: "nat option"
  deliveredAt :: "nat option"
  userId :: "string option"
  pointsUsed :: "int option"
  email :: "string option"
  cardKey :: "string option"

record card =
  cardId :: nat
  isUsed :: bool
  reservedOrderId :: "string option"
  reservedAt :: "nat option"

record loginUser =
  lu_userId :: string
  points :: int

record refundRequest =
  rr_id :: nat
  rr_orderId :: string

record db =
  orders :: "order list"
  cards :: "card list"
  loginUsers :: "loginUser list"
  refundRequests :: "refundRequest list"

text \<open>The statements the actions send to the store.\<close>

datatype store_op =
    FindOrder string
  | UpdateOrder string
  | UpdatePoints string
  | AlterCards
  | ReleaseCards string
  | DeleteRefundRequests string
  | DeleteOrderRow string
  | Commit

text \<open>A URL as \<open>new URL(s)\<close> exposes it.\<close>

record url =
  protocol :: string
  host :: string
  pathname :: string
  origin :: string

text \<open>What \<open>fetch(u)\<close> followed by \<open>res.json()\<close> does: either call throws, or a document is parsed.\<close>

datatype fetch_result = FetchFailed string | JsonFailed string | Body json

text \<open>
  The environment of a call: the collaborators that are not part of the sources.
  \<^item> \<open>isAdmin\<close>: whether the authorization gate lets the caller through;
  \<^item> \<open>fault\<close>: whether the store rejects a statement in a given state, and with which message;
  \<^item> \<open>now\<close>: the value of \<open>new Date()\<close>;
  \<^item> the three environment variables;
  \<^item> \<open>parseURL\<close>: the platform's \<open>URL\<close> constructor (\<open>None\<close>: it throws);
  \<^item> \<open>formEncode\<close>: the percent-encoding of \<open>URLSearchParams.toString\<close>;
  \<^item> \<open>fetch\<close>: the gateway's answer to a request URL.
\<close>

record env =
  isAdmin :: bool
  fault :: "store_op \<Rightarrow> db \<Rightarrow> string option"
  now :: nat
  MERCHANT_ID :: "string option"
  MERCHANT_KEY :: "string option"
  PAY_URL :: "string option"
  parseURL :: "string \<Rightarrow> url option"
  formEncode :: "string \<Rightarrow> string"
  fetch :: "string \<Rightarrow> fetch_result"

text \<open>The observable state: the store and the log of invalidated view paths.\<close>

record state =
  store :: db
  revalidated :: "string list"

text \<open>
  Modelled from the spec: \<open>checkAdmin\<close> of \<open>@/actions/admin\<close> is not part of the sources
  at hand. On rejection the operation fails with an Unauthorized error.
\<close>

definition checkAdmin :: "env \<Rightarrow> error + unit" where
  "checkAdmin e = (if isAdmin e then Inr () else Inl Unauthorized)"

definition revalidatePath :: "string \<Rightarrow> state \<Rightarrow> state" where
  "revalidatePath p s = s\<lparr>revalidated := revalidated s @ [p]\<rparr>"

subsection \<open>Statements\<close>

text \<open>A statement the store rejects throws and changes nothing.\<close>

definition run :: "env \<Rightarrow> store_op \<Rightarrow> (db \<Rightarrow> 'a) \<Rightarrow> db \<Rightarrow> error + 'a" where
  "run e op f d = (case fault e op d of Some m \<Rightarrow> Inl (Error m) | None \<Rightarrow> Inr (f d))"

text \<open>\<open>query.orders.findFirst({ where: eq(orders.orderId, oid) })\<close>\<close>

definition lookupOrder :: "string \<Rightarrow> db \<Rightarrow> order option" where
  "lookupOrder oid d = find (\<lambda>r. orderId r = oid) (orders d)"

definition findFirst :: "env \<Rightarrow> string \<Rightarrow> db \<Rightarrow> error + order option" where
  "findFirst e oid = run e (FindOrder oid) (lookupOrder oid)"

text \<open>\<open>update(orders).set(...).where(eq(orders.orderId, oid))\<close>\<close>

definition updateOrders :: "env \<Rightarrow> (order \<Rightarrow> order) \<Rightarrow> string \<Rightarrow> db \<Rightarrow> error + db" where
  "updateOrders e f oid =
     run e (UpdateOrder oid)
       (\<lambda>d. d\<lparr>orders := map (\<lambda>r. if orderId r = oid then f r else r) (orders d)\<rparr>)"

text \<open>\<open>update(loginUsers).set({ points: points + p }).where(eq(loginUsers.userId, u))\<close>\<close>

definition creditRow :: "string \<Rightarrow> int \<Rightarrow> loginUser \<Rightarrow> loginUser" where
  "creditRow u p r = (if lu_userId r = u then r\<lparr>points := points r + p\<rparr> else r)"

definition addPoints :: "env \<Rightarrow> string \<Rightarrow> int \<Rightarrow> db \<Rightarrow> error + db" where
  "addPoints e u p =
     run e (UpdatePoints u) (\<lambda>d. d\<lparr>loginUsers := map (creditRow u p) (loginUsers d)\<rparr>)"

text \<open>\<open>ALTER TABLE cards ADD COLUMN IF NOT EXISTS ...\<close>: the rows stay as they are.\<close>

definition alterCards :: "env \<Rightarrow> db \<Rightarrow> error + db" where
  "alterCards e = run e AlterCards (\<lambda>d. d)"

text \<open>
  \<open>update(cards).set({ reservedOrderId: null, reservedAt: null })
     .where(reserved_order_id = oid AND is_used = false)\<close>
\<close>

definition releaseRow :: "string \<Rightarrow> card \<Rightarrow> card" where
  "releaseRow oid c =
     (if reservedOrderId c = Some oid \<and> isUsed c = False
      then c\<lparr>reservedOrderId := None, reservedAt := None\<rparr> else c)"

definition releaseCards :: "env \<Rightarrow> string \<Rightarrow> db \<Rightarrow> error + db" where
  "releaseCards e oid =
     run e (ReleaseCards oid) (\<lambda>d. d\<lparr>cards := map (releaseRow oid) (cards d)\<rparr>)"

text \<open>\<open>delete(refundRequests).where(eq(refundRequests.orderId, oid))\<close>\<close>

definition deleteRefundRequests :: "env \<Rightarrow> string \<Rightarrow> db \<Rightarrow> error + db" where
  "deleteRefundRequests e oid =
     run e (DeleteRefundRequests oid)
       (\<lambda>d. d\<lparr>refundRequests := filter (\<lambda>r. rr_orderId r \<noteq> oid) (refundRequests d)\<rparr>)"

text \<open>\<open>delete(orders).where(eq(orders.orderId, oid))\<close>\<close>

definition deleteOrderRows :: "env \<Rightarrow> string \<Rightarrow> db \<Rightarrow> error + db" where
  "deleteOrderRows e oid =
     run e (DeleteOrderRow oid)
       (\<lambda>d. d\<lparr>orders := filter (\<lambda>r. orderId r \<noteq> oid) (orders d)\<rparr>)"

text \<open>
  \<open>db.transaction(body)\<close>: the body works on the store; when it throws, or the commit is
  rejected, the store is as it was before the transaction and the error is rethrown.
\<close>

definition transaction :: "env \<Rightarrow> (db \<Rightarrow> error + db) \<Rightarrow> db \<Rightarrow> (error + unit) \<times> db" where
  "transaction e body d =
     (case body d of
        Inl err \<Rightarrow> (Inl err, d)
      | Inr d' \<Rightarrow>
          (case fault e Commit d' of
             Some m \<Rightarrow> (Inl (Error m), d)
           | None \<Rightarrow> (Inr (), d')))"

text \<open>A \<open>try { stmt } catch { }\<close> around one statement: a rejected statement is skipped.\<close>

definition bestEffort :: "(db \<Rightarrow> error + db) \<Rightarrow> db \<Rightarrow> db" where
  "bestEffort stmt d = (case stmt d of Inl _ \<Rightarrow> d | Inr d' \<Rightarrow> d')"

text \<open>Sequencing of two statements, the second running only when the first did not throw.\<close>

definition andThen :: "(error + db) \<Rightarrow> (db \<Rightarrow> error + db) \<Rightarrow> error + db" where
  "andThen r k = (case r of Inl err \<Rightarrow> Inl err | Inr d \<Rightarrow> k d)"

section \<open>The admin order actions\<close>

definition markOrderPaid :: "env \<Rightarrow> string \<Rightarrow> state \<Rightarrow> (error + unit) \<times> state" where
  "markOrderPaid e oid s =
     (case checkAdmin e of
        Inl err \<Rightarrow> (Inl err, s)
      | Inr _ \<Rightarrow>
          if \<not> truthy oid then (Inl (Error ''Missing order id''), s)
          else
            (case updateOrders e (\<lambda>r. r\<lparr>status := Paid, paidAt := Some (now e)\<rparr>) oid (store s) of
               Inl err \<Rightarrow> (Inl err, s)
             | Inr d \<Rightarrow>
                 (Inr (),
                  revalidatePath (''/order/'' @ oid)
                    (revalidatePath (''/admin/orders/'' @ oid)
                      (revalidatePath ''/admin/orders'' (s\<lparr>store := d\<rparr>))))))"

definition markOrderDelivered :: "env \<Rightarrow> string \<Rightarrow> state \<Rightarrow> (error + unit) \<times> state" where
  "markOrderDelivered e oid s =
     (case checkAdmin e of
        Inl err \<Rightarrow> (Inl err, s)
      | Inr _ \<Rightarrow>
          if \<not> truthy oid then (Inl (Error ''Missing order id''), s)
          else
            (case findFirst e oid (store s) of
               Inl err \<Rightarrow> (Inl err, s)
             | Inr None \<Rightarrow> (Inl (Error ''Order not found''), s)
             | Inr (Some ord) \<Rightarrow>
                 if \<not> truthy_opt (cardKey ord)
                 then (Inl (Error ''Missing card key; cannot mark delivered''), s)
                 else
                   (case updateOrders e
                           (\<lambda>r. r\<lparr>status := Delivered, deliveredAt := Some (now e)\<rparr>) oid (store s) of
                      Inl err \<Rightarrow> (Inl err, s)
                    | Inr d \<Rightarrow>
                        (Inr (),
                         revalidatePath (''/order/'' @ oid)
                           (revalidatePath (''/admin/orders/'' @ oid)
                             (revalidatePath ''/admin/orders'' (s\<lparr>store := d\<rparr>)))))))"

text \<open>
  The refund both \<open>cancelOrder\<close> and \<open>deleteOneOrder\<close> make:
  \<open>if (order.userId && order.pointsUsed && order.pointsUsed > 0) update loginUsers ...\<close>
\<close>

definition refundPoints :: "env \<Rightarrow> order \<Rightarrow> db \<Rightarrow> error + db" where
  "refundPoints e ord d =
     (case userId ord of
        None \<Rightarrow> Inr d
      | Some u \<Rightarrow>
          if \<not> truthy u then Inr d
          else
            (case pointsUsed ord of
               None \<Rightarrow> Inr d
             | Some p \<Rightarrow> if p \<noteq> 0 \<and> p > 0 then addPoints e u p d else Inr d))"

text \<open>The body of the transaction of \<open>cancelOrder\<close>.\<close>

definition cancelOrder_tx :: "env \<Rightarrow> string \<Rightarrow> db \<Rightarrow> error + db" where
  "cancelOrder_tx e oid d =
     (case findFirst e oid d of
        Inl err \<Rightarrow> Inl err
      | Inr ord \<Rightarrow>
          andThen
            (andThen (case ord of None \<Rightarrow> Inr d | Some r \<Rightarrow> refundPoints e r d)
               (updateOrders e (\<lambda>r. r\<lparr>status := Cancelled\<rparr>) oid))
            (\<lambda>d2. releaseCards e oid (bestEffort (alterCards e) d2)))"

definition cancelOrder :: "env \<Rightarrow> string \<Rightarrow> state \<Rightarrow> (error + unit) \<times> state" where
  "cancelOrder e oid s =
     (case checkAdmin e of
        Inl err \<Rightarrow> (Inl err, s)
      | Inr _ \<Rightarrow>
          if \<not> truthy oid then (Inl (Error ''Missing order id''), s)
          else
            (case transaction e (cancelOrder_tx e oid) (store s) of
               (Inl err, d) \<Rightarrow> (Inl err, s\<lparr>store := d\<rparr>)
             | (Inr _, d) \<Rightarrow>
                 (Inr (),
                  revalidatePath (''/order/'' @ oid)
                    (revalidatePath (''/admin/orders/'' @ oid)
                      (revalidatePath ''/admin/orders'' (s\<lparr>store := d\<rparr>))))))"

definition updateOrderEmail ::
  "env \<Rightarrow> string \<Rightarrow> string option \<Rightarrow> state \<Rightarrow> (error + unit) \<times> state" where
  "updateOrderEmail e oid mail s =
     (case checkAdmin e of
        Inl err \<Rightarrow> (Inl err, s)
      | Inr _ \<Rightarrow>
          if \<not> truthy oid then (Inl (Error ''Missing order id''), s)
          else
            (let next = trim (or_else mail [])
             in case updateOrders e
                       (\<lambda>r. r\<lparr>email := (if truthy next then Some next else None)\<rparr>) oid (store s) of
                  Inl err \<Rightarrow> (Inl err, s)
                | Inr d \<Rightarrow>
                    (Inr (),
                     revalidatePath (''/admin/orders/'' @ oid)
                       (revalidatePath ''/admin/orders'' (s\<lparr>store := d\<rparr>)))))"

definition deleteOneOrder :: "env \<Rightarrow> string \<Rightarrow> db \<Rightarrow> error + db" where
  "deleteOneOrder e oid d =
     (case findFirst e oid d of
        Inl err \<Rightarrow> Inl err
      | Inr None \<Rightarrow> Inr d
      | Inr (Some ord) \<Rightarrow>
          andThen (refundPoints e ord d)
            (\<lambda>d1. andThen (releaseCards e oid (bestEffort (alterCards e) d1))
               (\<lambda>d2. deleteOrderRows e oid (bestEffort (deleteRefundRequests e oid) d2))))"

definition deleteOrder :: "env \<Rightarrow> string \<Rightarrow> state \<Rightarrow> (error + unit) \<times> state" where
  "deleteOrder e oid s =
     (case checkAdmin e of
        Inl err \<Rightarrow> (Inl err, s)
      | Inr _ \<Rightarrow>
          if \<not> truthy oid then (Inl (Error ''Missing order id''), s)
          else
            (case transaction e (deleteOneOrder e oid) (store s) of
               (Inl err, d) \<Rightarrow> (Inl err, s\<lparr>store := d\<rparr>)
             | (Inr _, d) \<Rightarrow>
                 (Inr (),
                  revalidatePath (''/admin/orders/'' @ oid)
                    (revalidatePath ''/admin/orders'' (s\<lparr>store := d\<rparr>)))))"

text \<open>The loop \<open>for (const id of ids) await deleteOneOrder(tx, id)\<close>.\<close>

fun deleteEach :: "env \<Rightarrow> string list \<Rightarrow> db \<Rightarrow> error + db" where
  "deleteEach e [] d = Inr d"
| "deleteEach e (i # ids) d = andThen (deleteOneOrder e i d) (deleteEach e ids)"

text \<open>\<open>(orderIds || []).map((s) => String(s).trim()).filter(Boolean)\<close>\<close>

definition cleanIds :: "string list option \<Rightarrow> string list" where
  "cleanIds orderIds = filter truthy (map trim (case orderIds of None \<Rightarrow> [] | Some xs \<Rightarrow> xs))"

definition deleteOrders :: "env \<Rightarrow> string list option \<Rightarrow> state \<Rightarrow> (error + unit) \<times> state" where
  "deleteOrders e orderIds s =
     (case checkAdmin e of
        Inl err \<Rightarrow> (Inl err, s)
      | Inr _ \<Rightarrow>
          (let ids = cleanIds orderIds
           in if length ids = 0 then (Inr (), s)
              else
                (case transaction e (deleteEach e ids) (store s) of
                   (Inl err, d) \<Rightarrow> (Inl err, s\<lparr>store := d\<rparr>)
                 | (Inr _, d) \<Rightarrow> (Inr (), revalidatePath ''/admin/orders'' (s\<lparr>store := d\<rparr>)))))"

subsection \<open>Refund verification against the gateway\<close>

text \<open>
  The endpoint the status query goes to, as the first \<open>try\<close> block computes it.
  \<open>derivedUrl\<close> is the first assignment to \<open>apiUrl\<close> inside the block.
\<close>

definition derivedUrl :: "url \<Rightarrow> string" where
  "derivedUrl urlObj =
     protocol urlObj @ ''//'' @ host urlObj @
       replace ''/submit.php'' ''/api.php''
         (replace ''/pay/submit.php'' ''/api.php'' (pathname urlObj))"

definition payUrl :: "env \<Rightarrow> string" where
  "payUrl e = or_else (PAY_URL e) ''https://credit.linux.do/epay/pay/submit.php''"

definition apiUrl :: "env \<Rightarrow> string" where
  "apiUrl e =
     (case parseURL e (payUrl e) of
        None \<Rightarrow> ''https://credit.linux.do/epay/api.php''
      | Some urlObj \<Rightarrow>
          if \<not> endsWith (derivedUrl urlObj) ''api.php''
          then protocol urlObj @ ''//'' @ host urlObj @ ''/epay/api.php''
          else derivedUrl urlObj)"

text \<open>\<open>new URLSearchParams({ act, pid, key, out_trade_no }).toString()\<close>\<close>

definition queryString :: "env \<Rightarrow> string \<Rightarrow> string \<Rightarrow> string \<Rightarrow> string" where
  "queryString e merchantId merchantKey oid =
     ''act=order&pid='' @ formEncode e merchantId @ ''&key='' @ formEncode e merchantKey @
     ''&out_trade_no='' @ formEncode e oid"

text \<open>
  Reading a property of the parsed answer: \<open>undefined\<close> (\<open>None\<close>) unless the answer is an
  object that has it. On \<open>null\<close> the read throws a TypeError, see \<open>nullRead\<close>.
\<close>

fun getProp :: "json \<Rightarrow> string \<Rightarrow> json option" where
  "getProp (JObj kvs) k = map_of kvs k"
| "getProp _ k = None"

text \<open>The URL handed to \<open>fetch\<close>: \<open>`${apiUrl}?${query.toString()}`\<close>\<close>

definition requestUrl :: "env \<Rightarrow> string \<Rightarrow> string" where
  "requestUrl e oid =
     apiUrl e @ ''?'' @
       queryString e (or_else (MERCHANT_ID e) []) (or_else (MERCHANT_KEY e) []) oid"

definition nullRead :: error where
  "nullRead = Error ''Cannot read properties of null (reading 'code')''"

record verifyResult =
  success :: bool
  r_status :: "json option"
  msg :: "string option"
  r_error :: "json option"

text \<open>The \<open>catch (e)\<close> of the second \<open>try\<close> block.\<close>

definition caught :: "error \<Rightarrow> verifyResult" where
  "caught err =
     \<lparr>success = False, r_status = None, msg = None, r_error = map_option JStr (message err)\<rparr>"

definition verifyOrderRefundStatus ::
  "env \<Rightarrow> string \<Rightarrow> state \<Rightarrow> (error + verifyResult) \<times> state" where
  "verifyOrderRefundStatus e oid s =
     (case checkAdmin e of
        Inl err \<Rightarrow> (Inl err, s)
      | Inr _ \<Rightarrow>
          if \<not> truthy oid then (Inl (Error ''Missing order id''), s)
          else if \<not> truthy_opt (MERCHANT_ID e) \<or> \<not> truthy_opt (MERCHANT_KEY e)
          then (Inl (Error ''Missing merchant config''), s)
          else
            (case fetch e (requestUrl e oid) of
               FetchFailed m \<Rightarrow> (Inr (caught (Error m)), s)
             | JsonFailed m \<Rightarrow> (Inr (caught (Error m)), s)
             | Body data \<Rightarrow>
                 if data = JNull then (Inr (caught nullRead), s)
                 else if getProp data ''code'' = Some (JNum 1) then
                   (if getProp data ''status'' = Some (JNum 0) then
                      (case updateOrders e (\<lambda>r. r\<lparr>status := Refunded\<rparr>) oid (store s) of
                         Inl err \<Rightarrow> (Inr (caught err), s)
                       | Inr d \<Rightarrow>
                           (Inr \<lparr>success = True, r_status = getProp data ''status'',
                                 msg = Some ''Refunded (Verified)'', r_error = None\<rparr>,
                            revalidatePath ''/admin/orders'' (s\<lparr>store := d\<rparr>)))
                    else if getProp data ''status'' = Some (JNum 1) then
                      (Inr \<lparr>success = True, r_status = getProp data ''status'',
                            msg = Some ''Paid (Not Refunded)'', r_error = None\<rparr>, s)
                    else
                      (Inr \<lparr>success = True, r_status = getProp data ''status'',
                            msg = Some (''Status: '' @ toString_js (getProp data ''status'')),
                            r_error = None\<rparr>, s))
                 else
                   (Inr \<lparr>success = False, r_status = None, msg = None,
                         r_error = (if truthy_js (getProp data ''msg'') then getProp data ''msg''
                                    else Some (JStr ''Query failed''))\<rparr>, s)))"

section \<open>The shop logo component\<close>

definition getFaviconUrl :: "(string \<Rightarrow> url option) \<Rightarrow> string \<Rightarrow> string" where
  "getFaviconUrl parse u =
     (case parse u of None \<Rightarrow> [] | Some urlObj \<Rightarrow> origin urlObj @ ''/favicon.ico'')"

record ShopLogoProps =
  name :: "string option"
  url :: string
  logo :: "string option"

text \<open>\<open>name?.trim()?.slice(0, 1) || "L"\<close>\<close>

definition fallbackLetter :: "string option \<Rightarrow> string" where
  "fallbackLetter n = or_else (map_option (\<lambda>t. take 1 (trim t)) n) ''L''"

text \<open>\<open>(logo || "").trim() || favicon\<close>\<close>

definition logoSrc :: "(string \<Rightarrow> url option) \<Rightarrow> ShopLogoProps \<Rightarrow> string" where
  "logoSrc parse p = or_else (Some (trim (or_else (logo p) []))) (getFaviconUrl parse (url p))"

text \<open>What the component puts inside its box: the image, or the letter.\<close>

datatype rendered = Img string | Letter string

text \<open>The render function; \<open>err\<close> is the component's \<open>error\<close> state, set by the image's \<open>onError\<close>.\<close>

definition ShopLogo :: "(string \<Rightarrow> url option) \<Rightarrow> ShopLogoProps \<Rightarrow> bool \<Rightarrow> rendered" where
  "ShopLogo parse p err =
     (let src = logoSrc parse p
      in if truthy src \<and> \<not> err then Img src else Letter (fallbackLetter (name p)))"

section \<open>Observations the statements are written in\<close>

text \<open>The points balance of a user: the \<open>points\<close> column of the user's row, if there is one.\<close>

definition balance :: "db \<Rightarrow> string \<Rightarrow> int option" where
  "balance d u = map_option points (find (\<lambda>r. lu_userId r = u) (loginUsers d))"

text \<open>
  The refund an order is owed when it is cancelled or deleted: the user and the amount,
  when the user-id is a non-empty string and the points used are positive.
\<close>

definition refundOf :: "order \<Rightarrow> (string \<times> int) option" where
  "refundOf ord =
     (case (userId ord, pointsUsed ord) of
        (Some u, Some p) \<Rightarrow> if u \<noteq> [] \<and> p > 0 then Some (u, p) else None
      | _ \<Rightarrow> None)"

text \<open>
  How a card row \<open>c\<close> relates to the same row \<open>c'\<close> after the orders in \<open>X\<close> were cancelled
  or deleted: a card that is not used and is reserved for one of them has lost its
  reservation; every other card, and so every used card, is as it was.
\<close>

definition cardInvariant :: "string set \<Rightarrow> card \<Rightarrow> card \<Rightarrow> bool" where
  "cardInvariant X c c' =
     (if \<not> isUsed c \<and> reservedOrderId c \<in> Some ` X
      then c' = c\<lparr>reservedOrderId := None, reservedAt := None\<rparr>
      else c' = c)"

section \<open>Example data\<close>

definition order_A :: order where
  "order_A = \<lparr>orderId = ''A'', status = Paid, paidAt = Some 1, deliveredAt = None,
              userId = Some ''u1'', pointsUsed = Some 5, email = None, cardKey = None\<rparr>"

definition order_B :: order where
  "order_B = \<lparr>orderId = ''B'', status = Pending, paidAt = None, deliveredAt = None,
              userId = None, pointsUsed = None, email = None, cardKey = Some ''K-1''\<rparr>"

definition db_ex :: db where
  "db_ex = \<lparr>orders = [order_A, order_B],
            cards = [\<lparr>cardId = 1, isUsed = False, reservedOrderId = Some ''A'', reservedAt = Some 7\<rparr>,
                     \<lparr>cardId = 2, isUsed = True, reservedOrderId = Some ''A'', reservedAt = Some 8\<rparr>,
                     \<lparr>cardId = 3, isUsed = False, reservedOrderId = Some ''B'', reservedAt = Some 9\<rparr>],
            loginUsers = [\<lparr>lu_userId = ''u1'', points = 10\<rparr>, \<lparr>lu_userId = ''u2'', points = 3\<rparr>],
            refundRequests = [\<lparr>rr_id = 1, rr_orderId = ''A''\<rparr>]\<rparr>"

text \<open>The store once order A of \<open>db_ex\<close> has been deleted.\<close>

definition db_without_A :: db where
  "db_without_A = \<lparr>orders = [order_B],
            cards = [\<lparr>cardId = 1, isUsed = False, reservedOrderId = None, reservedAt = None\<rparr>,
                     \<lparr>cardId = 2, isUsed = True, reservedOrderId = Some ''A'', reservedAt = Some 8\<rparr>,
                     \<lparr>cardId = 3, isUsed = False, reservedOrderId = Some ''B'', reservedAt = Some 9\<rparr>],
            loginUsers = [\<lparr>lu_userId = ''u1'', points = 15\<rparr>, \<lparr>lu_userId = ''u2'', points = 3\<rparr>],
            refundRequests = []\<rparr>"

definition st_ex :: state where
  "st_ex = \<lparr>store = db_ex, revalidated = []\<rparr>"

definition url_gateway :: url where
  "url_gateway = \<lparr>protocol = ''https:'', host = ''pay.example.com'', pathname = ''/gateway'',
                  origin = ''https://pay.example.com''\<rparr>"

definition url_submit :: url where
  "url_submit = \<lparr>protocol = ''https:'', host = ''credit.linux.do'',
                 pathname = ''/epay/pay/submit.php'', origin = ''https://credit.linux.do''\<rparr>"

text \<open>A \<open>URL\<close> constructor that knows two addresses and throws on everything else.\<close>

definition parse_ex :: "string \<Rightarrow> url option" where
  "parse_ex u =
     (if u = ''https://pay.example.com/gateway'' then Some url_gateway
      else if u = ''https://credit.linux.do/epay/pay/submit.php'' then Some url_submit
      else None)"

text \<open>An authorized caller, a store that accepts everything, a gateway answering \<open>{code: 1, status: 0}\<close>.\<close>

definition env_ex :: env where
  "env_ex = \<lparr>isAdmin = True, fault = (\<lambda>_ _. None), now = 100,
             MERCHANT_ID = Some ''1001'', MERCHANT_KEY = Some ''secret'', PAY_URL = None,
             parseURL = parse_ex, formEncode = (\<lambda>x. x),
             fetch = (\<lambda>_. Body (JObj [(''code'', JNum 1), (''status'', JNum 0)]))\<rparr>"

text \<open>The same, with a store that rejects the deletion of the row of order B.\<close>

definition env_fail_B :: env where
  "env_fail_B =
     env_ex\<lparr>fault := (\<lambda>op _. if op = DeleteOrderRow ''B'' then Some ''store unavailable'' else None)\<rparr>"

text \<open>The same as \<open>env_ex\<close>, with a submission endpoint that is not a \<open>submit.php\<close> address.\<close>

definition env_gateway :: env where
  "env_gateway = env_ex\<lparr>PAY_URL := Some ''https://pay.example.com/gateway''\<rparr>"

text \<open>Gateways answering \<open>{code: 1, status: 1}\<close> and \<open>{code: 0, msg: "bad pid"}\<close>, and one that is down.\<close>

definition env_paid :: env where
  "env_paid = env_ex\<lparr>fetch := (\<lambda>_. Body (JObj [(''code'', JNum 1), (''status'', JNum 1)]))\<rparr>"

definition env_badpid :: env where
  "env_badpid = env_ex\<lparr>fetch := (\<lambda>_. Body (JObj [(''code'', JNum 0), (''msg'', JStr ''bad pid'')]))\<rparr>"

definition env_down :: env where
  "env_down = env_ex\<lparr>fetch := (\<lambda>_. FetchFailed ''fetch failed'')\<rparr>"

definition props_ex :: ShopLogoProps where
  "props_ex = \<lparr>name = Some ''  shop'', url = ''not a url'', logo = Some ''  ''\<rparr>"

section \<open>Statements, transactions and sequencing\<close>

lemma run_Inr_iff: "run e op f d = Inr x \<longleftrightarrow> fault e op d = None \<and> x = f d"
  by (auto simp: run_def split: option.splits)

lemma andThen_Inr_iff: "andThen r k = Inr d' \<longleftrightarrow> (\<exists>d1. r = Inr d1 \<and> k d1 = Inr d')"
  by (cases r) (simp_all add: andThen_def)

lemma bestEffort_alterCards: "bestEffort (alterCards e) d = d"
  by (simp add: bestEffort_def alterCards_def run_def split: option.splits)

lemma bestEffort_deleteRefundRequests:
  "cards (bestEffort (deleteRefundRequests e oid) d) = cards d \<and>
   orders (bestEffort (deleteRefundRequests e oid) d) = orders d \<and>
   loginUsers (bestEffort (deleteRefundRequests e oid) d) = loginUsers d"
  by (simp add: bestEffort_def deleteRefundRequests_def run_def split: option.splits)

lemma transaction_Inl: "transaction e body d = (Inl err, d') \<Longrightarrow> d' = d"
  by (auto simp: transaction_def split: sum.splits option.splits)

lemma transaction_Inr: "transaction e body d = (Inr u, d') \<Longrightarrow> body d = Inr d'"
  by (auto simp: transaction_def split: sum.splits option.splits)

lemma transaction_body_Inl: "body d = Inl err \<Longrightarrow> transaction e body d = (Inl err, d)"
  by (simp add: transaction_def)

lemma releaseCards_Inr:
  "releaseCards e oid d = Inr d' \<Longrightarrow> d' = d\<lparr>cards := map (releaseRow oid) (cards d)\<rparr>"
  by (simp add: releaseCards_def run_Inr_iff)

lemma deleteOrderRows_Inr:
  "deleteOrderRows e oid d = Inr d' \<Longrightarrow>
   d' = d\<lparr>orders := filter (\<lambda>r. orderId r \<noteq> oid) (orders d)\<rparr>"
  by (simp add: deleteOrderRows_def run_Inr_iff)

lemma updateOrders_cards: "updateOrders e f oid d = Inr d' \<Longrightarrow> cards d' = cards d"
  by (auto simp: updateOrders_def run_Inr_iff)

subsection \<open>Looking an order up\<close>

lemma lookupOrder_None_iff:
  "lookupOrder oid d = None \<longleftrightarrow> (\<forall>r\<in>set (orders d). orderId r \<noteq> oid)"
  by (auto simp: lookupOrder_def find_None_iff)

lemma map_unmatched:
  "\<forall>r\<in>set xs. orderId r \<noteq> oid \<Longrightarrow> map (\<lambda>r. if orderId r = oid then f r else r) xs = xs"
  by (induction xs) auto

lemma updateOrders_absent:
  "lookupOrder oid d = None \<Longrightarrow> fault e (UpdateOrder oid) d = None \<Longrightarrow>
   updateOrders e f oid d = Inr d"
  by (simp add: updateOrders_def run_def lookupOrder_None_iff map_unmatched)

lemma find_filter_other:
  "x \<noteq> oid \<Longrightarrow>
   find (\<lambda>r. orderId r = x) (filter (\<lambda>r. orderId r \<noteq> oid) xs) = find (\<lambda>r. orderId r = x) xs"
  by (induction xs) auto

lemma lookupOrder_filter:
  "orders d' = filter (\<lambda>r. orderId r \<noteq> oid) (orders d) \<Longrightarrow>
   lookupOrder x d' = (if x = oid then None else lookupOrder x d)"
  by (auto simp: lookupOrder_def find_None_iff find_filter_other)

subsection \<open>Trimming\<close>

lemma all_dropWhile: "(\<forall>x\<in>set (dropWhile P s). P x) \<longleftrightarrow> (\<forall>x\<in>set s. P x)"
  by (induction s) auto

lemma trim_Nil_iff: "trim s = [] \<longleftrightarrow> (\<forall>c\<in>set s. isWhiteSpace c)"
  by (simp add: trim_def all_dropWhile)

lemma cleanIds_blank:
  "cleanIds (Some ids) = [] \<longleftrightarrow> (\<forall>x\<in>set ids. \<forall>c\<in>set x. isWhiteSpace c)"
  by (auto simp: cleanIds_def truthy_def filter_empty_conv trim_Nil_iff)

lemma hd_trim: "hd (trim n) = hd (dropWhile isWhiteSpace n)"
proof (cases "dropWhile isWhiteSpace n")
  case Nil
  show ?thesis unfolding trim_def Nil by simp
next
  case (Cons c m)
  then have "\<not> isWhiteSpace c"
    by (metis hd_dropWhile list.sel(1) list.distinct(1))
  then have "dropWhile isWhiteSpace (rev m @ [c]) = dropWhile isWhiteSpace (rev m) @ [c]"
    by (simp add: dropWhile_append3)
  with Cons show ?thesis by (simp add: trim_def)
qed

section \<open>Points refunds\<close>

lemma find_creditRow:
  "find (\<lambda>r. lu_userId r = v) (map (creditRow u p) xs) =
   map_option (creditRow u p) (find (\<lambda>r. lu_userId r = v) xs)"
  by (induction xs) (auto simp: creditRow_def)

lemma balance_credit:
  "balance (d\<lparr>loginUsers := map (creditRow u p) (loginUsers d)\<rparr>) v =
   (if v = u then map_option (\<lambda>b. b + p) (balance d u) else balance d v)"
proof -
  have "map_option points (map_option (creditRow u p) (find (\<lambda>r. lu_userId r = v) (loginUsers d))) =
        (if v = u
         then map_option (\<lambda>b. b + p) (map_option points (find (\<lambda>r. lu_userId r = v) (loginUsers d)))
         else map_option points (find (\<lambda>r. lu_userId r = v) (loginUsers d)))"
    by (cases "find (\<lambda>r. lu_userId r = v) (loginUsers d)")
       (auto simp: creditRow_def dest: find_Some_iff [THEN iffD1])
  then show ?thesis
    by (simp add: balance_def find_creditRow)
qed

lemma refundPoints_Inr:
  "refundPoints e ord d = Inr d' \<Longrightarrow>
   d' = (case refundOf ord of
           None \<Rightarrow> d
         | Some (u, p) \<Rightarrow> d\<lparr>loginUsers := map (creditRow u p) (loginUsers d)\<rparr>)"
  by (auto simp: refundPoints_def refundOf_def addPoints_def run_Inr_iff truthy_def
      split: option.splits if_splits)

lemma refundPoints_frame:
  "refundPoints e ord d = Inr d' \<Longrightarrow>
   cards d' = cards d \<and> orders d' = orders d \<and> refundRequests d' = refundRequests d"
  by (drule refundPoints_Inr) (auto split: option.splits)

section \<open>Cancelling\<close>

lemma cancelOrder_tx_users:
  assumes "cancelOrder_tx e oid d = Inr d'"
  shows "loginUsers d' =
           (case lookupOrder oid d of
              None \<Rightarrow> loginUsers d
            | Some ord \<Rightarrow>
                (case refundOf ord of
                   None \<Rightarrow> loginUsers d
                 | Some (u, p) \<Rightarrow> map (creditRow u p) (loginUsers d)))"
  using assms
  by (auto simp: cancelOrder_tx_def findFirst_def run_Inr_iff andThen_Inr_iff updateOrders_def
        releaseCards_def bestEffort_alterCards
      split: sum.splits option.splits dest!: refundPoints_Inr)

lemma cancelOrder_tx_cards:
  assumes "cancelOrder_tx e oid d = Inr d'"
  shows "cards d' = map (releaseRow oid) (cards d)"
  using assms
  by (auto simp: cancelOrder_tx_def findFirst_def run_Inr_iff andThen_Inr_iff updateOrders_def
        releaseCards_def bestEffort_alterCards
      split: sum.splits option.splits dest!: refundPoints_Inr)

lemma cancelOrder_Inr:
  "cancelOrder e oid s = (Inr u, s') \<Longrightarrow> cancelOrder_tx e oid (store s) = Inr (store s')"
  by (auto simp: cancelOrder_def transaction_def revalidatePath_def
      split: sum.splits if_splits option.splits)

lemma cancelOrder_Inl: "cancelOrder e oid s = (Inl err, s') \<Longrightarrow> s' = s"
  by (auto simp: cancelOrder_def transaction_def revalidatePath_def
      split: sum.splits if_splits option.splits)

text \<open>
  Claim C1. Let \<open>cancelOrder\<close> succeed on the order \<open>ord\<close> it finds. If \<open>ord\<close> has an owning
  user-id \<open>u\<close> (a non-empty string: the source tests the user-id for truthiness) and
  \<open>pointsUsed ord = p > 0\<close>, the balance of \<open>u\<close> afterwards is its balance before plus \<open>p\<close>,
  and every other balance is as before. If there is no order, or it has no user-id, or
  its points used are absent, zero or negative, the table of users is unchanged.
\<close>

theorem cancelOrder_points:
  assumes "cancelOrder e oid s = (Inr (), s')"
  shows "(\<forall>ord u p. lookupOrder oid (store s) = Some ord \<and> userId ord = Some u \<and> u \<noteq> [] \<and>
             pointsUsed ord = Some p \<and> p > 0 \<longrightarrow>
            balance (store s') u = map_option (\<lambda>b. b + p) (balance (store s) u) \<and>
            (\<forall>v. v \<noteq> u \<longrightarrow> balance (store s') v = balance (store s) v)) \<and>
         ((case lookupOrder oid (store s) of
             None \<Rightarrow> True
           | Some ord \<Rightarrow> userId ord = None \<or> userId ord = Some [] \<or> pointsUsed ord = None \<or>
                         (\<exists>p. pointsUsed ord = Some p \<and> p \<le> 0)) \<longrightarrow>
            loginUsers (store s') = loginUsers (store s))"
proof -
  have tx: "cancelOrder_tx e oid (store s) = Inr (store s')"
    using assms by (rule cancelOrder_Inr)
  note users = cancelOrder_tx_users [OF tx]
  show ?thesis
  proof (intro conjI allI impI)
    fix ord u p
    assume h: "lookupOrder oid (store s) = Some ord \<and> userId ord = Some u \<and> u \<noteq> [] \<and>
             pointsUsed ord = Some p \<and> p > 0"
    then have "refundOf ord = Some (u, p)"
      by (simp add: refundOf_def)
    with h users have eq: "loginUsers (store s') = map (creditRow u p) (loginUsers (store s))"
      by simp
    have "balance (store s') v =
          balance ((store s)\<lparr>loginUsers := map (creditRow u p) (loginUsers (store s))\<rparr>) v" for v
      by (simp add: balance_def eq)
    then have *: "balance (store s') v =
          (if v = u then map_option (\<lambda>b. b + p) (balance (store s) u) else balance (store s) v)" for v
      by (simp only: balance_credit)
    show "balance (store s') u = map_option (\<lambda>b. b + p) (balance (store s) u)"
      using * by simp
    fix v
    assume "v \<noteq> u"
    then show "balance (store s') v = balance (store s) v"
      using * by simp
  next
    assume "case lookupOrder oid (store s) of
             None \<Rightarrow> True
           | Some ord \<Rightarrow> userId ord = None \<or> userId ord = Some [] \<or> pointsUsed ord = None \<or>
                         (\<exists>p. pointsUsed ord = Some p \<and> p \<le> 0)"
    then show "loginUsers (store s') = loginUsers (store s)"
      using users by (auto simp: refundOf_def split: option.splits)
  qed
qed

text \<open>
  Cancelling order A of the example (user u1, 5 points used) takes u1 from 10 to 15 points
  and leaves u2 alone; cancelling order B (no user) leaves the table of users as it is.
\<close>

theorem cancelOrder_points_witness:
  "cancelOrder env_ex ''A'' st_ex = (Inr (), snd (cancelOrder env_ex ''A'' st_ex)) \<and>
   lookupOrder ''A'' (store st_ex) = Some order_A \<and>
   userId order_A = Some ''u1'' \<and> pointsUsed order_A = Some 5 \<and>
   balance (store st_ex) ''u1'' = Some 10 \<and>
   balance (store (snd (cancelOrder env_ex ''A'' st_ex))) ''u1'' = Some 15 \<and>
   balance (store (snd (cancelOrder env_ex ''A'' st_ex))) ''u2'' = balance (store st_ex) ''u2'' \<and>
   cancelOrder env_ex ''B'' st_ex = (Inr (), snd (cancelOrder env_ex ''B'' st_ex)) \<and>
   lookupOrder ''B'' (store st_ex) = Some order_B \<and> userId order_B = None \<and>
   loginUsers (store (snd (cancelOrder env_ex ''B'' st_ex))) = loginUsers (store st_ex)"
proof -
  have "fst (cancelOrder env_ex ''A'' st_ex) = Inr ()" by code_simp
  then have a: "cancelOrder env_ex ''A'' st_ex = (Inr (), snd (cancelOrder env_ex ''A'' st_ex))"
    by (simp add: prod_eq_iff)
  have "fst (cancelOrder env_ex ''B'' st_ex) = Inr ()" by code_simp
  then have b: "cancelOrder env_ex ''B'' st_ex = (Inr (), snd (cancelOrder env_ex ''B'' st_ex))"
    by (simp add: prod_eq_iff)
  have la: "lookupOrder ''A'' (store st_ex) = Some order_A" by code_simp
  have lb: "lookupOrder ''B'' (store st_ex) = Some order_B" by code_simp
  have ua: "userId order_A = Some ''u1''" and pa: "pointsUsed order_A = Some 5"
    and ub: "userId order_B = None"
    by (simp_all add: order_A_def order_B_def)
  have b0: "balance (store st_ex) ''u1'' = Some 10" by code_simp
  from cancelOrder_points [OF a] la ua pa
  have "balance (store (snd (cancelOrder env_ex ''A'' st_ex))) ''u1'' =
          map_option (\<lambda>b. b + 5) (balance (store st_ex) ''u1'')"
    and "balance (store (snd (cancelOrder env_ex ''A'' st_ex))) ''u2'' = balance (store st_ex) ''u2''"
    by auto
  moreover from cancelOrder_points [OF b] lb ub
  have "loginUsers (store (snd (cancelOrder env_ex ''B'' st_ex))) = loginUsers (store st_ex)"
    by simp
  ultimately show ?thesis
    using a b la lb ua pa ub b0 by simp
qed

section \<open>Deleting\<close>

lemma deleteOneOrder_absent:
  "deleteOneOrder e oid d = Inr d' \<Longrightarrow> lookupOrder oid d = None \<Longrightarrow> d' = d"
  by (auto simp: deleteOneOrder_def findFirst_def run_Inr_iff split: sum.splits option.splits)

lemma deleteOneOrder_present:
  assumes "deleteOneOrder e oid d = Inr d'" and "lookupOrder oid d = Some ord"
  shows "cards d' = map (releaseRow oid) (cards d) \<and>
         orders d' = filter (\<lambda>r. orderId r \<noteq> oid) (orders d)"
proof -
  have found: "findFirst e oid d = Inr (Some ord)"
    using assms by (auto simp: deleteOneOrder_def findFirst_def run_def split: option.splits)
  with assms(1) obtain d1 d2 where
    1: "refundPoints e ord d = Inr d1" and
    2: "releaseCards e oid d1 = Inr d2" and
    3: "deleteOrderRows e oid (bestEffort (deleteRefundRequests e oid) d2) = Inr d'"
    by (auto simp: deleteOneOrder_def andThen_Inr_iff bestEffort_alterCards)
  from 3 have d': "cards d' = cards d2 \<and> orders d' = filter (\<lambda>r. orderId r \<noteq> oid) (orders d2)"
    by (auto dest!: deleteOrderRows_Inr simp: bestEffort_deleteRefundRequests)
  from 2 have d2: "cards d2 = map (releaseRow oid) (cards d1) \<and> orders d2 = orders d1"
    by (auto dest!: releaseCards_Inr)
  from 1 d' d2 show ?thesis
    by (auto dest!: refundPoints_frame)
qed

lemma deleteEach_append:
  "deleteEach e (xs @ ys) d = andThen (deleteEach e xs d) (deleteEach e ys)"
  by (induction xs arbitrary: d) (auto simp: andThen_def split: sum.splits)

lemma deleteOrder_Inl: "deleteOrder e oid s = (Inl err, s') \<Longrightarrow> s' = s"
  by (auto simp: deleteOrder_def split: sum.splits if_splits prod.splits dest: transaction_Inl)

lemma deleteOrder_Inr:
  "deleteOrder e oid s = (Inr u, s') \<Longrightarrow> deleteOneOrder e oid (store s) = Inr (store s')"
  by (auto simp: deleteOrder_def revalidatePath_def
      split: sum.splits if_splits prod.splits dest: transaction_Inr)

lemma deleteOrders_Inl: "deleteOrders e ids s = (Inl err, s') \<Longrightarrow> s' = s"
  by (auto simp: deleteOrders_def Let_def
      split: sum.splits if_splits prod.splits dest: transaction_Inl)

lemma deleteOrders_Inr:
  "deleteOrders e ids s = (Inr u, s') \<Longrightarrow> cleanIds ids \<noteq> [] \<Longrightarrow>
     deleteEach e (cleanIds ids) (store s) = Inr (store s') \<and>
     revalidated s' = revalidated s @ [''/admin/orders'']"
  by (auto simp: deleteOrders_def Let_def revalidatePath_def
      split: sum.splits if_splits prod.splits dest: transaction_Inr)

text \<open>
  Claim C2. \<open>deleteOrders\<close> runs the per-order sequences of the whole batch inside one
  transaction. If the sequence of any order \<open>i\<close> of the cleaned batch throws, after the
  orders \<open>pre\<close> before it went through and took the store to \<open>d1\<close>, the operation
  rethrows and the state is the one before the call: nothing of \<open>d1\<close> is kept. Whenever
  the operation throws, the state is unchanged; when it returns on a non-empty batch,
  the store is the result of the whole loop and the list view was invalidated once.
\<close>

theorem deleteOrders_atomic:
  "(isAdmin e \<and> cleanIds ids = pre @ i # post \<and> deleteEach e pre (store s) = Inr d1 \<and>
      deleteOneOrder e i d1 = Inl err \<longrightarrow> deleteOrders e ids s = (Inl err, s)) \<and>
   (deleteOrders e ids s = (Inl err', s') \<longrightarrow> s' = s) \<and>
   (deleteOrders e ids s = (Inr (), s'') \<and> cleanIds ids \<noteq> [] \<longrightarrow>
      deleteEach e (cleanIds ids) (store s) = Inr (store s'') \<and>
      revalidated s'' = revalidated s @ [''/admin/orders''])"
proof (intro conjI impI)
  assume h: "isAdmin e \<and> cleanIds ids = pre @ i # post \<and> deleteEach e pre (store s) = Inr d1 \<and>
      deleteOneOrder e i d1 = Inl err"
  then have "deleteEach e (cleanIds ids) (store s) = Inl err"
    by (simp add: deleteEach_append andThen_def)
  then have "transaction e (deleteEach e (cleanIds ids)) (store s) = (Inl err, store s)"
    by (rule transaction_body_Inl)
  with h show "deleteOrders e ids s = (Inl err, s)"
    by (simp add: deleteOrders_def checkAdmin_def Let_def)
next
  assume "deleteOrders e ids s = (Inl err', s')"
  then show "s' = s"
    by (rule deleteOrders_Inl)
next
  assume "deleteOrders e ids s = (Inr (), s'') \<and> cleanIds ids \<noteq> []"
  then show "deleteEach e (cleanIds ids) (store s) = Inr (store s'')"
    and "revalidated s'' = revalidated s @ [''/admin/orders'']"
    using deleteOrders_Inr by blast+
qed

text \<open>
  The batch [A, B] on the example, with a store that rejects the deletion of the row of B:
  the sequence of A goes through inside the transaction and changes the store, the one
  of B throws, and the call leaves the state as it was. With a store that accepts
  everything the same batch returns and both rows are gone.
\<close>

theorem deleteOrders_atomic_witness:
  "isAdmin env_fail_B \<and>
   cleanIds (Some [''A'', '' B '']) = [''A''] @ ''B'' # [] \<and>
   deleteEach env_fail_B [''A''] (store st_ex) = Inr db_without_A \<and>
   orders db_without_A \<noteq> orders (store st_ex) \<and>
   deleteOneOrder env_fail_B ''B'' db_without_A = Inl (Error ''store unavailable'') \<and>
   deleteOrders env_fail_B (Some [''A'', '' B '']) st_ex = (Inl (Error ''store unavailable''), st_ex) \<and>
   deleteOrders env_ex (Some [''A'', '' B '']) st_ex =
     (Inr (), snd (deleteOrders env_ex (Some [''A'', '' B '']) st_ex)) \<and>
   deleteEach env_ex [''A'', ''B''] (store st_ex) =
     Inr (store (snd (deleteOrders env_ex (Some [''A'', '' B '']) st_ex))) \<and>
   orders (store (snd (deleteOrders env_ex (Some [''A'', '' B '']) st_ex))) = []"
proof -
  have adm: "isAdmin env_fail_B" by code_simp
  have ids: "cleanIds (Some [''A'', '' B '']) = [''A''] @ ''B'' # []" by code_simp
  have one: "deleteEach env_fail_B [''A''] (store st_ex) = Inr db_without_A" by code_simp
  have chg: "orders db_without_A \<noteq> orders (store st_ex)" by code_simp
  have two: "deleteOneOrder env_fail_B ''B'' db_without_A = Inl (Error ''store unavailable'')"
    by code_simp
  have rolled: "deleteOrders env_fail_B (Some [''A'', '' B '']) st_ex =
                  (Inl (Error ''store unavailable''), st_ex)"
    using deleteOrders_atomic [where e = env_fail_B and ids = "Some [''A'', '' B '']"
        and pre = "[''A'']" and i = "''B''" and post = "[]" and s = st_ex and ?d1.0 = db_without_A
        and err = "Error ''store unavailable''"] adm ids one two
    by blast
  have "fst (deleteOrders env_ex (Some [''A'', '' B '']) st_ex) = Inr ()" by code_simp
  then have ok: "deleteOrders env_ex (Some [''A'', '' B '']) st_ex =
                   (Inr (), snd (deleteOrders env_ex (Some [''A'', '' B '']) st_ex))"
    by (simp add: prod_eq_iff)
  have ne: "cleanIds (Some [''A'', '' B '']) \<noteq> []"
    using ids by simp
  have all: "deleteEach env_ex [''A'', ''B''] (store st_ex) =
               Inr (store (snd (deleteOrders env_ex (Some [''A'', '' B '']) st_ex)))"
    using deleteOrders_atomic [where e = env_ex and ids = "Some [''A'', '' B '']" and s = st_ex
        and s'' = "snd (deleteOrders env_ex (Some [''A'', '' B '']) st_ex)"] ok ne ids
    by simp
  have gone: "orders (store (snd (deleteOrders env_ex (Some [''A'', '' B '']) st_ex))) = []"
    by code_simp
  show ?thesis
    using adm ids one chg two rolled ok all gone by blast
qed

section \<open>Card reservations\<close>

lemma cardInvariant_releaseRow: "cardInvariant {oid} c (releaseRow oid c)"
  by (auto simp: cardInvariant_def releaseRow_def)

lemma cardInvariant_refl: "cardInvariant {} c c"
  by (simp add: cardInvariant_def)

lemma cardInvariant_step:
  "cardInvariant {i} c c1 \<Longrightarrow> cardInvariant X c1 c' \<Longrightarrow> cardInvariant (insert i X) c c'"
  by (auto simp: cardInvariant_def split: if_splits)

lemma list_all2_map_self: "(\<And>x. P x (f x)) \<Longrightarrow> list_all2 P xs (map f xs)"
  by (induction xs) auto

lemma list_all2_unchanged: "list_all2 (cardInvariant {}) cs cs"
  by (induction cs) (simp_all add: cardInvariant_refl)

lemma deleteEach_cards:
  "deleteEach e ids d = Inr d' \<Longrightarrow>
   list_all2 (cardInvariant {x \<in> set ids. lookupOrder x d \<noteq> None}) (cards d) (cards d')"
proof (induction ids arbitrary: d)
  case Nil
  then show ?case
    by (simp add: list_all2_unchanged)
next
  case (Cons i ids)
  from Cons.prems obtain d1 where
    one: "deleteOneOrder e i d = Inr d1" and rest: "deleteEach e ids d1 = Inr d'"
    by (auto simp: andThen_Inr_iff)
  note ih = Cons.IH [OF rest]
  show ?case
  proof (cases "lookupOrder i d")
    case None
    with one have "d1 = d"
      by (simp add: deleteOneOrder_absent)
    moreover have "{x \<in> set (i # ids). lookupOrder x d \<noteq> None} =
                   {x \<in> set ids. lookupOrder x d \<noteq> None}"
      using None by auto
    ultimately show ?thesis
      using ih by simp
  next
    case (Some ord)
    note eff = deleteOneOrder_present [OF one Some]
    have X1: "{x \<in> set ids. lookupOrder x d1 \<noteq> None} =
              {x \<in> set ids. lookupOrder x d \<noteq> None} - {i}"
      using eff by (auto simp: lookupOrder_filter)
    have X: "{x \<in> set (i # ids). lookupOrder x d \<noteq> None} =
             insert i ({x \<in> set ids. lookupOrder x d \<noteq> None} - {i})"
      using Some by auto
    have first: "list_all2 (cardInvariant {i}) (cards d) (cards d1)"
      using eff by (simp add: list_all2_map_self cardInvariant_releaseRow)
    have "list_all2 (cardInvariant (insert i ({x \<in> set ids. lookupOrder x d \<noteq> None} - {i})))
            (cards d) (cards d')"
      using first ih [unfolded X1]
      by (rule list_all2_trans [rotated]) (rule cardInvariant_step)
    then show ?thesis
      by (simp only: X)
  qed
qed

lemma markOrderPaid_cards: "cards (store (snd (markOrderPaid e oid s))) = cards (store s)"
  by (auto simp: markOrderPaid_def revalidatePath_def split: sum.splits dest: updateOrders_cards)

lemma markOrderDelivered_cards:
  "cards (store (snd (markOrderDelivered e oid s))) = cards (store s)"
  by (auto simp: markOrderDelivered_def revalidatePath_def
      split: sum.splits option.splits dest: updateOrders_cards)

lemma updateOrderEmail_cards:
  "cards (store (snd (updateOrderEmail e oid m s))) = cards (store s)"
  by (auto simp: updateOrderEmail_def revalidatePath_def Let_def
      split: sum.splits option.splits dest: updateOrders_cards)

lemma verifyOrderRefundStatus_cards:
  "cards (store (snd (verifyOrderRefundStatus e oid s))) = cards (store s)"
  by (auto simp: verifyOrderRefundStatus_def revalidatePath_def Let_def
      split: sum.splits option.splits fetch_result.splits dest: updateOrders_cards)

text \<open>
  Claim C3. Every operation keeps the invariant of the card reservations. When an order
  is cancelled, or an existing order is deleted (alone or as one of a batch), each card
  that is not used and is reserved for it has its reserved-order-id and reserved-at
  cleared, and every other card, so every used card, is exactly as before. When one of
  these operations throws, and in the four other operations, no card row changes.
\<close>

theorem reservation_release:
  "(cancelOrder e oid s = (Inr (), s1) \<longrightarrow>
      list_all2 (cardInvariant {oid}) (cards (store s)) (cards (store s1))) \<and>
   (deleteOrder e oid s = (Inr (), s2) \<longrightarrow>
      list_all2 (cardInvariant {x. x = oid \<and> lookupOrder x (store s) \<noteq> None})
        (cards (store s)) (cards (store s2))) \<and>
   (deleteOrders e ids s = (Inr (), s3) \<longrightarrow>
      list_all2 (cardInvariant {x \<in> set (cleanIds ids). lookupOrder x (store s) \<noteq> None})
        (cards (store s)) (cards (store s3))) \<and>
   (cancelOrder e oid s = (Inl err, s4) \<or> deleteOrder e oid s = (Inl err, s4) \<or>
    deleteOrders e ids s = (Inl err, s4) \<longrightarrow> cards (store s4) = cards (store s)) \<and>
   cards (store (snd (markOrderPaid e oid s))) = cards (store s) \<and>
   cards (store (snd (markOrderDelivered e oid s))) = cards (store s) \<and>
   cards (store (snd (updateOrderEmail e oid mail s))) = cards (store s) \<and>
   cards (store (snd (verifyOrderRefundStatus e oid s))) = cards (store s)"
proof (intro conjI impI)
  assume "cancelOrder e oid s = (Inr (), s1)"
  then have "cards (store s1) = map (releaseRow oid) (cards (store s))"
    by (intro cancelOrder_tx_cards cancelOrder_Inr)
  then show "list_all2 (cardInvariant {oid}) (cards (store s)) (cards (store s1))"
    by (simp add: list_all2_map_self cardInvariant_releaseRow)
next
  assume "deleteOrder e oid s = (Inr (), s2)"
  then have "deleteEach e [oid] (store s) = Inr (store s2)"
    by (simp add: deleteOrder_Inr andThen_def)
  from deleteEach_cards [OF this]
  show "list_all2 (cardInvariant {x. x = oid \<and> lookupOrder x (store s) \<noteq> None})
        (cards (store s)) (cards (store s2))"
    by simp
next
  assume a: "deleteOrders e ids s = (Inr (), s3)"
  show "list_all2 (cardInvariant {x \<in> set (cleanIds ids). lookupOrder x (store s) \<noteq> None})
        (cards (store s)) (cards (store s3))"
  proof (cases "cleanIds ids = []")
    case True
    with a have "s3 = s"
      by (simp add: deleteOrders_def Let_def split: sum.splits)
    with True show ?thesis
      by (simp add: list_all2_unchanged)
  next
    case False
    with a have "deleteEach e (cleanIds ids) (store s) = Inr (store s3)"
      by (simp add: deleteOrders_Inr)
    then show ?thesis
      by (rule deleteEach_cards)
  qed
next
  assume "cancelOrder e oid s = (Inl err, s4) \<or> deleteOrder e oid s = (Inl err, s4) \<or>
    deleteOrders e ids s = (Inl err, s4)"
  then have "s4 = s"
    using cancelOrder_Inl deleteOrder_Inl deleteOrders_Inl by blast
  then show "cards (store s4) = cards (store s)"
    by simp
qed (rule markOrderPaid_cards markOrderDelivered_cards updateOrderEmail_cards
      verifyOrderRefundStatus_cards)+

text \<open>
  On the example, card 1 (not used) and card 2 (used) are reserved for order A and card 3
  for order B. Cancelling A clears card 1 only; deleting the batch [A, B] clears cards 1
  and 3; card 2 keeps its reservation each time. The batch that throws changes no card.
\<close>

theorem reservation_release_witness:
  "cancelOrder env_ex ''A'' st_ex = (Inr (), snd (cancelOrder env_ex ''A'' st_ex)) \<and>
   list_all2 (cardInvariant {''A''}) (cards (store st_ex))
     (cards (store (snd (cancelOrder env_ex ''A'' st_ex)))) \<and>
   map reservedOrderId (cards (store (snd (cancelOrder env_ex ''A'' st_ex)))) =
     [None, Some ''A'', Some ''B''] \<and>
   deleteOrders env_ex (Some [''A'', ''B'']) st_ex =
     (Inr (), snd (deleteOrders env_ex (Some [''A'', ''B'']) st_ex)) \<and>
   list_all2 (cardInvariant {''A'', ''B''}) (cards (store st_ex))
     (cards (store (snd (deleteOrders env_ex (Some [''A'', ''B'']) st_ex)))) \<and>
   map reservedOrderId (cards (store (snd (deleteOrders env_ex (Some [''A'', ''B'']) st_ex)))) =
     [None, Some ''A'', None] \<and>
   deleteOrders env_fail_B (Some [''A'', ''B'']) st_ex =
     (Inl (Error ''store unavailable''), snd (deleteOrders env_fail_B (Some [''A'', ''B'']) st_ex)) \<and>
   cards (store (snd (deleteOrders env_fail_B (Some [''A'', ''B'']) st_ex))) = cards (store st_ex)"
proof -
  let ?c = "snd (cancelOrder env_ex ''A'' st_ex)"
  let ?d = "snd (deleteOrders env_ex (Some [''A'', ''B'']) st_ex)"
  let ?f = "snd (deleteOrders env_fail_B (Some [''A'', ''B'']) st_ex)"
  have "fst (cancelOrder env_ex ''A'' st_ex) = Inr ()" by code_simp
  then have c: "cancelOrder env_ex ''A'' st_ex = (Inr (), ?c)"
    by (simp add: prod_eq_iff)
  have "fst (deleteOrders env_ex (Some [''A'', ''B'']) st_ex) = Inr ()" by code_simp
  then have d: "deleteOrders env_ex (Some [''A'', ''B'']) st_ex = (Inr (), ?d)"
    by (simp add: prod_eq_iff)
  have "fst (deleteOrders env_fail_B (Some [''A'', ''B'']) st_ex) = Inl (Error ''store unavailable'')"
    by code_simp
  then have f: "deleteOrders env_fail_B (Some [''A'', ''B'']) st_ex =
                  (Inl (Error ''store unavailable''), ?f)"
    by (simp add: prod_eq_iff)
  have X: "{x \<in> set (cleanIds (Some [''A'', ''B''])). lookupOrder x (store st_ex) \<noteq> None} =
           {''A'', ''B''}"
  proof -
    have "cleanIds (Some [''A'', ''B'']) = [''A'', ''B'']" by code_simp
    moreover have "lookupOrder ''A'' (store st_ex) \<noteq> None" by code_simp
    moreover have "lookupOrder ''B'' (store st_ex) \<noteq> None" by code_simp
    ultimately show ?thesis by auto
  qed
  have 1: "list_all2 (cardInvariant {''A''}) (cards (store st_ex)) (cards (store ?c))"
    using reservation_release [where e = env_ex and oid = "''A''" and s = st_ex and ?s1.0 = ?c] c
    by blast
  have 2: "list_all2 (cardInvariant {''A'', ''B''}) (cards (store st_ex)) (cards (store ?d))"
    using reservation_release [where e = env_ex and ids = "Some [''A'', ''B'']" and s = st_ex
        and ?s3.0 = ?d] d X
    by simp
  have 3: "cards (store ?f) = cards (store st_ex)"
    using reservation_release [where e = env_fail_B and ids = "Some [''A'', ''B'']" and s = st_ex
        and ?s4.0 = ?f and err = "Error ''store unavailable''"] f
    by blast
  have 4: "map reservedOrderId (cards (store ?c)) = [None, Some ''A'', Some ''B'']" by code_simp
  have 5: "map reservedOrderId (cards (store ?d)) = [None, Some ''A'', None]" by code_simp
  show ?thesis
    using c d f 1 2 3 4 5 by blast
qed

section \<open>Guards of the plain updates\<close>

text \<open>
  Claim C4. For an authorized caller, \<open>markOrderDelivered\<close> throws InvalidArgument
  (\<open>Missing order id\<close>) when the order id is empty, NotFound (\<open>Order not found\<close>) when the
  store holds no order with that id, and PreconditionFailed (\<open>Missing card key; cannot
  mark delivered\<close>) when the order is there and its card key is null or empty. In each
  of these cases, as whenever the operation throws, the state is the one before the
  call, so neither the status nor the delivery time of any order has changed.
\<close>

theorem markOrderDelivered_failures:
  "(\<not> isAdmin e \<longrightarrow> markOrderDelivered e oid s = (Inl Unauthorized, s)) \<and>
   (isAdmin e \<and> oid = [] \<longrightarrow> markOrderDelivered e oid s = (Inl InvalidArgument, s)) \<and>
   (isAdmin e \<and> oid \<noteq> [] \<and> fault e (FindOrder oid) (store s) = None \<and>
      lookupOrder oid (store s) = None \<longrightarrow>
      markOrderDelivered e oid s = (Inl NotFound, s)) \<and>
   (isAdmin e \<and> oid \<noteq> [] \<and> fault e (FindOrder oid) (store s) = None \<and>
      lookupOrder oid (store s) = Some ord \<and> (cardKey ord = None \<or> cardKey ord = Some []) \<longrightarrow>
      markOrderDelivered e oid s = (Inl PreconditionFailed, s)) \<and>
   (\<forall>err s'. markOrderDelivered e oid s = (Inl err, s') \<longrightarrow> s' = s)"
  by (auto simp: markOrderDelivered_def checkAdmin_def truthy_def truthy_opt_def findFirst_def
        run_def InvalidArgument_def NotFound_def PreconditionFailed_def
      split: sum.splits option.splits)

text \<open>
  On the example: the empty id, the id Z of no order, and order A, which has no card key.
\<close>

theorem markOrderDelivered_failures_witness:
  "isAdmin env_ex \<and>
   markOrderDelivered env_ex [] st_ex = (Inl (Error ''Missing order id''), st_ex) \<and>
   lookupOrder ''Z'' (store st_ex) = None \<and>
   markOrderDelivered env_ex ''Z'' st_ex = (Inl (Error ''Order not found''), st_ex) \<and>
   lookupOrder ''A'' (store st_ex) = Some order_A \<and> cardKey order_A = None \<and>
   markOrderDelivered env_ex ''A'' st_ex =
     (Inl (Error ''Missing card key; cannot mark delivered''), st_ex) \<and>
   markOrderDelivered (env_ex\<lparr>isAdmin := False\<rparr>) ''A'' st_ex = (Inl Unauthorized, st_ex)"
proof -
  have adm: "isAdmin env_ex" by code_simp
  have nf: "fault env_ex op d = None" for op d
    by (simp add: env_ex_def)
  have z: "lookupOrder ''Z'' (store st_ex) = None" by code_simp
  have a: "lookupOrder ''A'' (store st_ex) = Some order_A" by code_simp
  have k: "cardKey order_A = None"
    by (simp add: order_A_def)
  have 1: "markOrderDelivered env_ex [] st_ex = (Inl (Error ''Missing order id''), st_ex)"
    using markOrderDelivered_failures [where e = env_ex and oid = "[]" and s = st_ex] adm
    by (simp add: InvalidArgument_def)
  have 2: "markOrderDelivered env_ex ''Z'' st_ex = (Inl (Error ''Order not found''), st_ex)"
    using markOrderDelivered_failures [where e = env_ex and oid = "''Z''" and s = st_ex] adm nf z
    by (simp add: NotFound_def)
  have 3: "markOrderDelivered env_ex ''A'' st_ex =
             (Inl (Error ''Missing card key; cannot mark delivered''), st_ex)"
    using markOrderDelivered_failures [where e = env_ex and oid = "''A''" and s = st_ex
        and ord = order_A] adm nf a k
    by (simp add: PreconditionFailed_def)
  have 4: "markOrderDelivered (env_ex\<lparr>isAdmin := False\<rparr>) ''A'' st_ex = (Inl Unauthorized, st_ex)"
    using markOrderDelivered_failures [where e = "env_ex\<lparr>isAdmin := False\<rparr>" and oid = "''A''"
        and s = st_ex]
    by simp
  show ?thesis
    using adm z a k 1 2 3 4 by blast
qed

text \<open>
  Claim C8. \<open>deleteOrders\<close> works on the list of the trimmed ids that are not blank. When
  every id of the input is blank (in particular when the input is empty or absent), that
  list is empty and the call changes nothing: the store and the log of invalidated views
  are the ones before the call, and an authorized caller gets a plain return.
\<close>

theorem deleteOrders_blank_noop:
  "cleanIds orderIds =
     map trim (filter (\<lambda>x. \<not> (\<forall>c\<in>set x. isWhiteSpace c))
                 (case orderIds of None \<Rightarrow> [] | Some ids \<Rightarrow> ids)) \<and>
   ((\<forall>x\<in>set (case orderIds of None \<Rightarrow> [] | Some ids \<Rightarrow> ids). \<forall>c\<in>set x. isWhiteSpace c) \<longrightarrow>
      deleteOrders e orderIds s = (if isAdmin e then Inr () else Inl Unauthorized, s))"
proof (intro conjI impI)
  have "truthy \<circ> trim = (\<lambda>x. \<not> (\<forall>c\<in>set x. isWhiteSpace c))"
    by (auto simp: fun_eq_iff truthy_def trim_Nil_iff)
  then show "cleanIds orderIds =
     map trim (filter (\<lambda>x. \<not> (\<forall>c\<in>set x. isWhiteSpace c))
                 (case orderIds of None \<Rightarrow> [] | Some ids \<Rightarrow> ids))"
    by (simp add: cleanIds_def filter_map)
next
  assume "\<forall>x\<in>set (case orderIds of None \<Rightarrow> [] | Some ids \<Rightarrow> ids). \<forall>c\<in>set x. isWhiteSpace c"
  then have "cleanIds orderIds = []"
    by (cases orderIds) (simp_all add: cleanIds_blank, simp add: cleanIds_def)
  then show "deleteOrders e orderIds s = (if isAdmin e then Inr () else Inl Unauthorized, s)"
    by (simp add: deleteOrders_def checkAdmin_def)
qed

text \<open>The empty batch and the batch of a blank and an empty id, on the example.\<close>

theorem deleteOrders_blank_noop_witness:
  "isWhiteSpace CHR '' '' \<and>
   deleteOrders env_ex (Some ['' '', '''']) st_ex = (Inr (), st_ex) \<and>
   deleteOrders env_ex (Some []) st_ex = (Inr (), st_ex) \<and>
   cleanIds (Some ['' A'', ''  '', ''B '']) = [''A'', ''B'']"
proof -
  have b: "\<forall>x\<in>set ['' '', '''']. \<forall>c\<in>set x. isWhiteSpace c" by code_simp
  have adm: "isAdmin env_ex" by code_simp
  have 1: "deleteOrders env_ex (Some ['' '', '''']) st_ex = (Inr (), st_ex)"
    using deleteOrders_blank_noop [where orderIds = "Some ['' '', '''']" and e = env_ex
        and s = st_ex] b adm
    by simp
  have 2: "deleteOrders env_ex (Some []) st_ex = (Inr (), st_ex)"
    using deleteOrders_blank_noop [where orderIds = "Some []" and e = env_ex and s = st_ex] adm
    by simp
  have 3: "cleanIds (Some ['' A'', ''  '', ''B '']) = [''A'', ''B'']" by code_simp
  have w: "isWhiteSpace CHR '' ''" by code_simp
  show ?thesis
    using w 1 2 3 by blast
qed

text \<open>
  Claim C9. \<open>markOrderPaid\<close> and \<open>updateOrderEmail\<close> do not ask for the order to be there.
  For an authorized caller and a non-empty id of no order, each returns without an error
  when the store accepts the update, the store is unchanged (no row is made or
  modified), and the views are invalidated all the same: three paths for
  \<open>markOrderPaid\<close>, two for \<open>updateOrderEmail\<close>. \<open>markOrderDelivered\<close> on the same id throws
  \<open>Order not found\<close>.
\<close>

theorem no_existence_check:
  assumes "isAdmin e" and "oid \<noteq> []" and "lookupOrder oid (store s) = None"
  shows "(fault e (UpdateOrder oid) (store s) = None \<longrightarrow>
          markOrderPaid e oid s =
            (Inr (), s\<lparr>revalidated := revalidated s @
                         [''/admin/orders'', ''/admin/orders/'' @ oid, ''/order/'' @ oid]\<rparr>) \<and>
          updateOrderEmail e oid mail s =
            (Inr (), s\<lparr>revalidated := revalidated s @
                         [''/admin/orders'', ''/admin/orders/'' @ oid]\<rparr>)) \<and>
         (fault e (FindOrder oid) (store s) = None \<longrightarrow>
          markOrderDelivered e oid s = (Inl NotFound, s))"
  using assms
  by (auto simp: markOrderPaid_def updateOrderEmail_def markOrderDelivered_def checkAdmin_def
        truthy_def updateOrders_absent revalidatePath_def findFirst_def run_def NotFound_def Let_def)

text \<open>The id Z of no order, on the example.\<close>

theorem no_existence_check_witness:
  "isAdmin env_ex \<and> ''Z'' \<noteq> [] \<and> lookupOrder ''Z'' (store st_ex) = None \<and>
   markOrderPaid env_ex ''Z'' st_ex =
     (Inr (), st_ex\<lparr>revalidated := [''/admin/orders'', ''/admin/orders/Z'', ''/order/Z'']\<rparr>) \<and>
   updateOrderEmail env_ex ''Z'' (Some ''a@b.com'') st_ex =
     (Inr (), st_ex\<lparr>revalidated := [''/admin/orders'', ''/admin/orders/Z'']\<rparr>) \<and>
   markOrderDelivered env_ex ''Z'' st_ex = (Inl (Error ''Order not found''), st_ex)"
proof -
  have adm: "isAdmin env_ex" by code_simp
  have nf: "fault env_ex op d = None" for op d
    by (simp add: env_ex_def)
  have z: "lookupOrder ''Z'' (store st_ex) = None" by code_simp
  have r: "revalidated st_ex = []"
    by (simp add: st_ex_def)
  have ne: "''Z'' \<noteq> []" by simp
  from no_existence_check [OF adm ne z, where mail = "Some ''a@b.com''"] nf r
  have "markOrderPaid env_ex ''Z'' st_ex =
          (Inr (), st_ex\<lparr>revalidated := [''/admin/orders'', ''/admin/orders/Z'', ''/order/Z'']\<rparr>)"
    and "updateOrderEmail env_ex ''Z'' (Some ''a@b.com'') st_ex =
          (Inr (), st_ex\<lparr>revalidated := [''/admin/orders'', ''/admin/orders/Z'']\<rparr>)"
    and "markOrderDelivered env_ex ''Z'' st_ex = (Inl (Error ''Order not found''), st_ex)"
    by (simp_all add: NotFound_def)
  then show ?thesis
    using adm z by simp
qed

section \<open>Refund verification\<close>

text \<open>
  Claim C5. Let the caller be authorized, the order id non-empty and the merchant id and
  key configured, and let the gateway answer a document whose \<open>code\<close> is 1. If its
  \<open>status\<close> is 0 and the store accepts the update, the status of every order row with
  that id becomes \<open>refunded\<close>, nothing else in the store changes, the admin list view is
  invalidated, and the result is \<open>{success: true, status: 0, msg: "Refunded (Verified)"}\<close>.
  If its \<open>status\<close> is 1, the state is unchanged and the result is
  \<open>{success: true, status: 1, msg: "Paid (Not Refunded)"}\<close>.
\<close>

theorem verify_code_one:
  assumes "isAdmin e" and "oid \<noteq> []"
    and "MERCHANT_ID e = Some mid" and "mid \<noteq> []"
    and "MERCHANT_KEY e = Some key" and "key \<noteq> []"
    and "fetch e (requestUrl e oid) = Body data"
    and "getProp data ''code'' = Some (JNum 1)"
  shows "(getProp data ''status'' = Some (JNum 0) \<and> fault e (UpdateOrder oid) (store s) = None \<longrightarrow>
            verifyOrderRefundStatus e oid s =
              (Inr \<lparr>success = True, r_status = Some (JNum 0), msg = Some ''Refunded (Verified)'',
                    r_error = None\<rparr>,
               s\<lparr>store := (store s)\<lparr>orders :=
                     map (\<lambda>r. if orderId r = oid then r\<lparr>status := Refunded\<rparr> else r)
                       (orders (store s))\<rparr>,
                 revalidated := revalidated s @ [''/admin/orders'']\<rparr>)) \<and>
         (getProp data ''status'' = Some (JNum 1) \<longrightarrow>
            verifyOrderRefundStatus e oid s =
              (Inr \<lparr>success = True, r_status = Some (JNum 1), msg = Some ''Paid (Not Refunded)'',
                    r_error = None\<rparr>, s))"
proof -
  have "data \<noteq> JNull"
    using assms(8) by auto
  then show ?thesis
    using assms
    by (simp add: verifyOrderRefundStatus_def checkAdmin_def truthy_def truthy_opt_def
          updateOrders_def run_def revalidatePath_def)
qed

text \<open>
  Order A of the example is paid. With the gateway answering \<open>{code: 1, status: 0}\<close> it
  becomes refunded and order B stays pending; with \<open>{code: 1, status: 1}\<close> nothing moves.
\<close>

theorem verify_code_one_witness:
  "isAdmin env_ex \<and> MERCHANT_ID env_ex = Some ''1001'' \<and> MERCHANT_KEY env_ex = Some ''secret'' \<and>
   fetch env_ex (requestUrl env_ex ''A'') = Body (JObj [(''code'', JNum 1), (''status'', JNum 0)]) \<and>
   fst (verifyOrderRefundStatus env_ex ''A'' st_ex) =
     Inr \<lparr>success = True, r_status = Some (JNum 0), msg = Some ''Refunded (Verified)'',
          r_error = None\<rparr> \<and>
   map status (orders (store st_ex)) = [Paid, Pending] \<and>
   map status (orders (store (snd (verifyOrderRefundStatus env_ex ''A'' st_ex)))) =
     [Refunded, Pending] \<and>
   revalidated (snd (verifyOrderRefundStatus env_ex ''A'' st_ex)) = [''/admin/orders''] \<and>
   fetch env_paid (requestUrl env_paid ''A'') = Body (JObj [(''code'', JNum 1), (''status'', JNum 1)]) \<and>
   verifyOrderRefundStatus env_paid ''A'' st_ex =
     (Inr \<lparr>success = True, r_status = Some (JNum 1), msg = Some ''Paid (Not Refunded)'',
           r_error = None\<rparr>, st_ex)"
proof -
  let ?d0 = "JObj [(''code'', JNum 1), (''status'', JNum 0)]"
  let ?d1 = "JObj [(''code'', JNum 1), (''status'', JNum 1)]"
  have adm: "isAdmin env_ex" "isAdmin env_paid"
    by (simp_all add: env_ex_def env_paid_def)
  have mid: "MERCHANT_ID env_ex = Some ''1001''" "MERCHANT_ID env_paid = Some ''1001''"
    by (simp_all add: env_ex_def env_paid_def)
  have key: "MERCHANT_KEY env_ex = Some ''secret''" "MERCHANT_KEY env_paid = Some ''secret''"
    by (simp_all add: env_ex_def env_paid_def)
  have f0: "fetch env_ex (requestUrl env_ex ''A'') = Body ?d0"
    by (simp add: env_ex_def)
  have f1: "fetch env_paid (requestUrl env_paid ''A'') = Body ?d1"
    by (simp add: env_ex_def env_paid_def)
  have nf: "fault env_ex (UpdateOrder ''A'') (store st_ex) = None"
    by (simp add: env_ex_def)
  have c0: "getProp ?d0 ''code'' = Some (JNum 1)" and s0: "getProp ?d0 ''status'' = Some (JNum 0)"
    and c1: "getProp ?d1 ''code'' = Some (JNum 1)" and s1: "getProp ?d1 ''status'' = Some (JNum 1)"
    by simp_all
  have r0: "verifyOrderRefundStatus env_ex ''A'' st_ex =
      (Inr \<lparr>success = True, r_status = Some (JNum 0), msg = Some ''Refunded (Verified)'',
            r_error = None\<rparr>,
       st_ex\<lparr>store := (store st_ex)\<lparr>orders :=
               map (\<lambda>r. if orderId r = ''A'' then r\<lparr>status := Refunded\<rparr> else r)
                 (orders (store st_ex))\<rparr>,
             revalidated := revalidated st_ex @ [''/admin/orders'']\<rparr>)"
    using verify_code_one [OF adm(1) _ mid(1) _ key(1) _ f0 c0, where s = st_ex] s0 nf
    by simp
  have r1: "verifyOrderRefundStatus env_paid ''A'' st_ex =
      (Inr \<lparr>success = True, r_status = Some (JNum 1), msg = Some ''Paid (Not Refunded)'',
            r_error = None\<rparr>, st_ex)"
    using verify_code_one [OF adm(2) _ mid(2) _ key(2) _ f1 c1, where s = st_ex] s1
    by simp
  have before: "map status (orders (store st_ex)) = [Paid, Pending]"
    by (simp add: st_ex_def db_ex_def order_A_def order_B_def)
  have after: "map status (orders (store (snd (verifyOrderRefundStatus env_ex ''A'' st_ex)))) =
                 [Refunded, Pending]"
    unfolding r0 by (simp add: st_ex_def db_ex_def order_A_def order_B_def)
  have reval: "revalidated (snd (verifyOrderRefundStatus env_ex ''A'' st_ex)) = [''/admin/orders'']"
    unfolding r0 by (simp add: st_ex_def)
  have res: "fst (verifyOrderRefundStatus env_ex ''A'' st_ex) =
     Inr \<lparr>success = True, r_status = Some (JNum 0), msg = Some ''Refunded (Verified)'',
          r_error = None\<rparr>"
    unfolding r0 by simp
  show ?thesis
    using adm(1) mid(1) key(1) f0 res before after reval f1 r1 by blast
qed

text \<open>
  Claim C6, as the source has it. The three guards of \<open>verifyOrderRefundStatus\<close> throw:
  an unauthorized caller, an empty order id and a missing merchant id or key each raise
  past the operation, with the state unchanged. Past the guards the operation raises
  nothing, whatever the gateway and the store do: it returns a result. A failing request
  or a body that does not parse gives \<open>{success: false, error: m}\<close> with \<open>m\<close> the message
  of the failure; so does the body \<open>null\<close>, with the message of the failed property
  read; any other body whose \<open>code\<close> is not 1 gives \<open>{success: false, error: e}\<close> with
  \<open>e\<close> the \<open>msg\<close> of the body if that is truthy, else \<open>"Query failed"\<close>. Whenever the
  result has \<open>success = false\<close>, the state is the one before the call.
\<close>

theorem verify_structured:
  "(\<not> isAdmin e \<longrightarrow> verifyOrderRefundStatus e oid s = (Inl Unauthorized, s)) \<and>
   (isAdmin e \<and> oid = [] \<longrightarrow> verifyOrderRefundStatus e oid s = (Inl InvalidArgument, s)) \<and>
   (isAdmin e \<and> oid \<noteq> [] \<and> \<not> (truthy_opt (MERCHANT_ID e) \<and> truthy_opt (MERCHANT_KEY e)) \<longrightarrow>
      verifyOrderRefundStatus e oid s = (Inl ConfigurationError, s)) \<and>
   (isAdmin e \<and> oid \<noteq> [] \<and> truthy_opt (MERCHANT_ID e) \<and> truthy_opt (MERCHANT_KEY e) \<longrightarrow>
      (\<exists>r. fst (verifyOrderRefundStatus e oid s) = Inr r) \<and>
      (fetch e (requestUrl e oid) = FetchFailed m \<or> fetch e (requestUrl e oid) = JsonFailed m \<longrightarrow>
         verifyOrderRefundStatus e oid s =
           (Inr \<lparr>success = False, r_status = None, msg = None, r_error = Some (JStr m)\<rparr>, s)) \<and>
      (fetch e (requestUrl e oid) = Body JNull \<longrightarrow>
         verifyOrderRefundStatus e oid s =
           (Inr \<lparr>success = False, r_status = None, msg = None,
                 r_error = Some (JStr ''Cannot read properties of null (reading 'code')'')\<rparr>, s)) \<and>
      (fetch e (requestUrl e oid) = Body data \<and> data \<noteq> JNull \<and>
         getProp data ''code'' \<noteq> Some (JNum 1) \<longrightarrow>
         verifyOrderRefundStatus e oid s =
           (Inr \<lparr>success = False, r_status = None, msg = None,
                 r_error = (if truthy_js (getProp data ''msg'') then getProp data ''msg''
                            else Some (JStr ''Query failed''))\<rparr>, s)) \<and>
      (\<forall>r s'. verifyOrderRefundStatus e oid s = (Inr r, s') \<and> \<not> success r \<longrightarrow> s' = s))"
proof (intro conjI impI)
  show "verifyOrderRefundStatus e oid s = (Inl Unauthorized, s)" if "\<not> isAdmin e"
    using that by (simp add: verifyOrderRefundStatus_def checkAdmin_def)
  show "verifyOrderRefundStatus e oid s = (Inl InvalidArgument, s)" if "isAdmin e \<and> oid = []"
    using that
    by (simp add: verifyOrderRefundStatus_def checkAdmin_def truthy_def InvalidArgument_def)
  show "verifyOrderRefundStatus e oid s = (Inl ConfigurationError, s)"
    if "isAdmin e \<and> oid \<noteq> [] \<and> \<not> (truthy_opt (MERCHANT_ID e) \<and> truthy_opt (MERCHANT_KEY e))"
    using that
    by (auto simp: verifyOrderRefundStatus_def checkAdmin_def truthy_def ConfigurationError_def)
next
  assume g: "isAdmin e \<and> oid \<noteq> [] \<and> truthy_opt (MERCHANT_ID e) \<and> truthy_opt (MERCHANT_KEY e)"
  then have unfold: "verifyOrderRefundStatus e oid s =
    (case fetch e (requestUrl e oid) of
       FetchFailed m \<Rightarrow> (Inr (caught (Error m)), s)
     | JsonFailed m \<Rightarrow> (Inr (caught (Error m)), s)
     | Body data \<Rightarrow>
         if data = JNull then (Inr (caught nullRead), s)
         else if getProp data ''code'' = Some (JNum 1) then
           (if getProp data ''status'' = Some (JNum 0) then
              (case updateOrders e (\<lambda>r. r\<lparr>status := Refunded\<rparr>) oid (store s) of
                 Inl err \<Rightarrow> (Inr (caught err), s)
               | Inr d \<Rightarrow>
                   (Inr \<lparr>success = True, r_status = getProp data ''status'',
                         msg = Some ''Refunded (Verified)'', r_error = None\<rparr>,
                    revalidatePath ''/admin/orders'' (s\<lparr>store := d\<rparr>)))
            else if getProp data ''status'' = Some (JNum 1) then
              (Inr \<lparr>success = True, r_status = getProp data ''status'',
                    msg = Some ''Paid (Not Refunded)'', r_error = None\<rparr>, s)
            else
              (Inr \<lparr>success = True, r_status = getProp data ''status'',
                    msg = Some (''Status: '' @ toString_js (getProp data ''status'')),
                    r_error = None\<rparr>, s))
         else
           (Inr \<lparr>success = False, r_status = None, msg = None,
                 r_error = (if truthy_js (getProp data ''msg'') then getProp data ''msg''
                            else Some (JStr ''Query failed''))\<rparr>, s))"
    by (simp add: verifyOrderRefundStatus_def checkAdmin_def truthy_def)
  show "\<exists>r. fst (verifyOrderRefundStatus e oid s) = Inr r"
    unfolding unfold by (simp split: fetch_result.splits sum.splits)
  show "verifyOrderRefundStatus e oid s =
           (Inr \<lparr>success = False, r_status = None, msg = None, r_error = Some (JStr m)\<rparr>, s)"
    if "fetch e (requestUrl e oid) = FetchFailed m \<or> fetch e (requestUrl e oid) = JsonFailed m"
    using that unfolding unfold by (auto simp: caught_def)
  show "verifyOrderRefundStatus e oid s =
           (Inr \<lparr>success = False, r_status = None, msg = None,
                 r_error = Some (JStr ''Cannot read properties of null (reading 'code')'')\<rparr>, s)"
    if "fetch e (requestUrl e oid) = Body JNull"
    using that unfolding unfold by (simp add: caught_def nullRead_def)
  show "verifyOrderRefundStatus e oid s =
           (Inr \<lparr>success = False, r_status = None, msg = None,
                 r_error = (if truthy_js (getProp data ''msg'') then getProp data ''msg''
                            else Some (JStr ''Query failed''))\<rparr>, s)"
    if "fetch e (requestUrl e oid) = Body data \<and> data \<noteq> JNull \<and>
         getProp data ''code'' \<noteq> Some (JNum 1)"
    using that unfolding unfold by simp
  show "\<forall>r s'. verifyOrderRefundStatus e oid s = (Inr r, s') \<and> \<not> success r \<longrightarrow> s' = s"
    unfolding unfold by (auto simp: caught_def split: fetch_result.splits sum.splits if_splits)
qed

text \<open>
  On the example, with a gateway that is down and with one answering
  \<open>{code: 0, msg: "bad pid"}\<close>: a result each time, and the state as before.
\<close>

theorem verify_structured_witness:
  "isAdmin env_down \<and> ''A'' \<noteq> [] \<and>
   truthy_opt (MERCHANT_ID env_down) \<and> truthy_opt (MERCHANT_KEY env_down) \<and>
   fetch env_down (requestUrl env_down ''A'') = FetchFailed ''fetch failed'' \<and>
   verifyOrderRefundStatus env_down ''A'' st_ex =
     (Inr \<lparr>success = False, r_status = None, msg = None,
           r_error = Some (JStr ''fetch failed'')\<rparr>, st_ex) \<and>
   fetch env_badpid (requestUrl env_badpid ''A'') =
     Body (JObj [(''code'', JNum 0), (''msg'', JStr ''bad pid'')]) \<and>
   verifyOrderRefundStatus env_badpid ''A'' st_ex =
     (Inr \<lparr>success = False, r_status = None, msg = None,
           r_error = Some (JStr ''bad pid'')\<rparr>, st_ex) \<and>
   verifyOrderRefundStatus (env_ex\<lparr>MERCHANT_KEY := None\<rparr>) ''A'' st_ex =
     (Inl (Error ''Missing merchant config''), st_ex)"
proof -
  let ?bad = "JObj [(''code'', JNum 0), (''msg'', JStr ''bad pid'')]"
  have g1: "isAdmin env_down \<and> ''A'' \<noteq> [] \<and>
            truthy_opt (MERCHANT_ID env_down) \<and> truthy_opt (MERCHANT_KEY env_down)"
    by (simp add: env_down_def env_ex_def truthy_opt_def truthy_def)
  have g2: "isAdmin env_badpid \<and> ''A'' \<noteq> [] \<and>
            truthy_opt (MERCHANT_ID env_badpid) \<and> truthy_opt (MERCHANT_KEY env_badpid)"
    by (simp add: env_badpid_def env_ex_def truthy_opt_def truthy_def)
  have g3: "isAdmin (env_ex\<lparr>MERCHANT_KEY := None\<rparr>) \<and> ''A'' \<noteq> [] \<and>
            \<not> truthy_opt (MERCHANT_KEY (env_ex\<lparr>MERCHANT_KEY := None\<rparr>))"
    by (simp add: env_ex_def truthy_opt_def)
  have f1: "fetch env_down (requestUrl env_down ''A'') = FetchFailed ''fetch failed''"
    by (simp add: env_down_def)
  have f2: "fetch env_badpid (requestUrl env_badpid ''A'') = Body ?bad"
    by (simp add: env_badpid_def)
  have r1: "verifyOrderRefundStatus env_down ''A'' st_ex =
     (Inr \<lparr>success = False, r_status = None, msg = None,
           r_error = Some (JStr ''fetch failed'')\<rparr>, st_ex)"
    using verify_structured [where e = env_down and oid = "''A''" and s = st_ex
        and m = "''fetch failed''"] g1 f1
    by blast
  have "verifyOrderRefundStatus env_badpid ''A'' st_ex =
     (Inr \<lparr>success = False, r_status = None, msg = None,
           r_error = (if truthy_js (getProp ?bad ''msg'') then getProp ?bad ''msg''
                      else Some (JStr ''Query failed''))\<rparr>, st_ex)"
    using verify_structured [where e = env_badpid and oid = "''A''" and s = st_ex
        and data = ?bad] g2 f2
    by simp
  then have r2: "verifyOrderRefundStatus env_badpid ''A'' st_ex =
     (Inr \<lparr>success = False, r_status = None, msg = None,
           r_error = Some (JStr ''bad pid'')\<rparr>, st_ex)"
    by simp
  have r3: "verifyOrderRefundStatus (env_ex\<lparr>MERCHANT_KEY := None\<rparr>) ''A'' st_ex =
     (Inl (Error ''Missing merchant config''), st_ex)"
    using verify_structured [where e = "env_ex\<lparr>MERCHANT_KEY := None\<rparr>" and oid = "''A''"
        and s = st_ex] g3
    by (simp add: ConfigurationError_def)
  show ?thesis
    using g1 f1 r1 f2 r2 r3 by blast
qed

text \<open>
  The claim as it is written, for every input, fails on the empty order id: an authorized
  call with configured credentials raises \<open>Missing order id\<close> instead of returning a
  result.
\<close>

theorem verify_raises_counterexample:
  "isAdmin env_ex \<and>
   truthy_opt (MERCHANT_ID env_ex) \<and> truthy_opt (MERCHANT_KEY env_ex) \<and>
   verifyOrderRefundStatus env_ex [] st_ex = (Inl (Error ''Missing order id''), st_ex)"
  by (simp add: verifyOrderRefundStatus_def checkAdmin_def env_ex_def truthy_def truthy_opt_def)

section \<open>The status-query endpoint\<close>

subsection \<open>Replacing the first occurrence\<close>

lemma replace_absent: "pat \<noteq> [] \<Longrightarrow> \<not> sublist pat s \<Longrightarrow> replace pat rep s = s"
proof (induction s)
  case Nil
  then show ?case by simp
next
  case (Cons c cs)
  then have "\<not> prefix pat (c # cs)" and "\<not> sublist pat cs"
    by (auto dest: prefix_imp_sublist simp: sublist_Cons_right)
  with Cons show ?case by simp
qed

lemma prefix_of_long:
  "prefix pat (xs @ ys) \<Longrightarrow> length pat \<le> length xs \<Longrightarrow> prefix pat xs"
  using prefix_length_prefix by fastforce

lemma replace_first:
  "pat \<noteq> [] \<Longrightarrow> \<not> sublist pat (pre @ butlast pat) \<Longrightarrow>
   replace pat rep (pre @ pat @ post) = pre @ rep @ post"
proof (induction pre)
  case Nil
  then show ?case by (cases pat) simp_all
next
  case (Cons c pre)
  have "\<not> prefix pat (c # pre @ pat @ post)"
  proof
    assume p: "prefix pat (c # pre @ pat @ post)"
    have "c # pre @ pat @ post = ((c # pre) @ butlast pat) @ (last pat # post)"
      using Cons.prems(1) by simp
    moreover have "length pat \<le> length ((c # pre) @ butlast pat)"
      by simp
    ultimately have "prefix pat ((c # pre) @ butlast pat)"
      using p prefix_of_long by metis
    then show False
      using Cons.prems(2) by (auto dest: prefix_imp_sublist)
  qed
  moreover have "\<not> sublist pat (pre @ butlast pat)"
    using Cons.prems(2) by (auto simp: sublist_Cons_right)
  ultimately show ?case
    using Cons by simp
qed

text \<open>Where a character first occurs fixes how a list splits around it.\<close>

lemma split_at_first:
  "a \<notin> set xs \<Longrightarrow> xs @ a # ys = xs' @ a # ys' \<Longrightarrow>
   length ys' \<le> length ys \<and> (length ys' = length ys \<longrightarrow> xs' = xs)"
proof (induction xs arbitrary: xs')
  case Nil
  then show ?case by (cases xs') auto
next
  case (Cons x xs)
  then show ?case by (cases xs') auto
qed

lemma sublist_around:
  assumes "a \<notin> set xs" and "sublist (u @ a # v) (xs @ a # ys)"
  shows "length v \<le> length ys \<and> (length v = length ys \<longrightarrow> suffix u xs)"
proof -
  from assms(2) obtain ps ss where "xs @ a # ys = ps @ (u @ a # v) @ ss"
    by (auto simp: sublist_def)
  then have "xs @ a # ys = (ps @ u) @ a # (v @ ss)"
    by simp
  from split_at_first [OF assms(1) this]
  have "length (v @ ss) \<le> length ys" and "length (v @ ss) = length ys \<longrightarrow> ps @ u = xs"
    by auto
  then show ?thesis
    by (auto simp: suffix_def)
qed

subsection \<open>The two submission segments in a path without a dot before them\<close>

lemma no_pay_submit_early:
  assumes "CHR ''.'' \<notin> set pre"
  shows "\<not> sublist ''/pay/submit.php'' (pre @ butlast ''/pay/submit.php'')"
proof
  assume s: "sublist ''/pay/submit.php'' (pre @ butlast ''/pay/submit.php'')"
  have n: "CHR ''.'' \<notin> set (pre @ ''/pay/submit'')"
    using assms by simp
  have "sublist (''/pay/submit'' @ CHR ''.'' # ''php'') ((pre @ ''/pay/submit'') @ CHR ''.'' # ''ph'')"
    using s by simp
  from sublist_around [OF n this] show False
    by simp
qed

lemma no_submit_early:
  assumes "CHR ''.'' \<notin> set pre"
  shows "\<not> sublist ''/submit.php'' (pre @ butlast ''/submit.php'')"
proof
  assume s: "sublist ''/submit.php'' (pre @ butlast ''/submit.php'')"
  have n: "CHR ''.'' \<notin> set (pre @ ''/submit'')"
    using assms by simp
  have "sublist (''/submit'' @ CHR ''.'' # ''php'') ((pre @ ''/submit'') @ CHR ''.'' # ''ph'')"
    using s by simp
  from sublist_around [OF n this] show False
    by simp
qed

lemma no_submit_in_api:
  assumes "CHR ''.'' \<notin> set pre"
  shows "\<not> sublist ''/submit.php'' (pre @ ''/api.php'')"
proof
  assume s: "sublist ''/submit.php'' (pre @ ''/api.php'')"
  have n: "CHR ''.'' \<notin> set (pre @ ''/api'')"
    using assms by simp
  have "sublist (''/submit'' @ CHR ''.'' # ''php'') ((pre @ ''/api'') @ CHR ''.'' # ''php'')"
    using s by simp
  from sublist_around [OF n this] have "suffix ''/submit'' (pre @ ''/api'')"
    by simp
  then show False
    by (auto simp: suffix_def)
qed

lemma no_pay_submit_in_submit:
  assumes "CHR ''.'' \<notin> set pre" and "\<not> suffix ''/pay'' pre"
  shows "\<not> sublist ''/pay/submit.php'' (pre @ ''/submit.php'')"
proof
  assume s: "sublist ''/pay/submit.php'' (pre @ ''/submit.php'')"
  have n: "CHR ''.'' \<notin> set (pre @ ''/submit'')"
    using assms by simp
  have "sublist (''/pay/submit'' @ CHR ''.'' # ''php'') ((pre @ ''/submit'') @ CHR ''.'' # ''php'')"
    using s by simp
  from sublist_around [OF n this] have "suffix (''/pay'' @ ''/submit'') (pre @ ''/submit'')"
    by simp
  then have "suffix ''/pay'' pre"
    by (simp only: same_suffix_suffix)
  with assms(2) show False
    by simp
qed

lemma derived_pay_submit:
  assumes "pathname u = pre @ ''/pay/submit.php''" and "CHR ''.'' \<notin> set pre"
  shows "derivedUrl u = protocol u @ ''//'' @ host u @ pre @ ''/api.php''"
proof -
  have "replace ''/pay/submit.php'' ''/api.php'' (pre @ ''/pay/submit.php'' @ []) =
          pre @ ''/api.php'' @ []"
    using assms(2) by (intro replace_first no_pay_submit_early) simp_all
  moreover have "replace ''/submit.php'' ''/api.php'' (pre @ ''/api.php'') = pre @ ''/api.php''"
    using assms(2) by (intro replace_absent no_submit_in_api) simp_all
  ultimately show ?thesis
    by (simp add: derivedUrl_def assms(1))
qed

lemma derived_submit:
  assumes "pathname u = pre @ ''/submit.php''" and "CHR ''.'' \<notin> set pre"
    and "\<not> suffix ''/pay'' pre"
  shows "derivedUrl u = protocol u @ ''//'' @ host u @ pre @ ''/api.php''"
proof -
  have "replace ''/pay/submit.php'' ''/api.php'' (pre @ ''/submit.php'') = pre @ ''/submit.php''"
    using assms(2,3) by (intro replace_absent no_pay_submit_in_submit) simp_all
  moreover have "replace ''/submit.php'' ''/api.php'' (pre @ ''/submit.php'' @ []) =
                   pre @ ''/api.php'' @ []"
    using assms(2) by (intro replace_first no_submit_early) simp_all
  ultimately show ?thesis
    by (simp add: derivedUrl_def assms(1))
qed

lemma sublist_chain: "sublist xs ys \<Longrightarrow> sublist ys zs \<Longrightarrow> sublist xs zs"
proof -
  assume "sublist xs ys" and "sublist ys zs"
  then obtain p1 s1 p2 s2 where "ys = p1 @ xs @ s1" and "zs = p2 @ ys @ s2"
    by (auto simp: sublist_def)
  then have "zs = (p2 @ p1) @ xs @ (s1 @ s2)"
    by simp
  then show ?thesis
    unfolding sublist_def by blast
qed

lemma derived_other:
  assumes "\<not> sublist ''/submit.php'' (pathname u)"
  shows "derivedUrl u = protocol u @ ''//'' @ host u @ pathname u"
proof -
  have "sublist ''/submit.php'' (''/pay'' @ ''/submit.php'')"
    by (rule sublist_append_leftI)
  then have "\<not> sublist ''/pay/submit.php'' (pathname u)"
    using assms sublist_chain by fastforce
  then have "replace ''/pay/submit.php'' ''/api.php'' (pathname u) = pathname u"
    by (intro replace_absent) simp_all
  moreover have "replace ''/submit.php'' ''/api.php'' (pathname u) = pathname u"
    using assms by (intro replace_absent) simp_all
  ultimately show ?thesis
    by (simp add: derivedUrl_def)
qed

text \<open>
  Claim C7, as the source has it. The submission endpoint is \<open>PAY_URL\<close>, or the address
  \<open>https://credit.linux.do/epay/pay/submit.php\<close> when that is not set. When it does not
  parse, the query goes to the fixed address \<open>https://credit.linux.do/epay/api.php\<close>. When
  it parses, the path is rewritten: a path \<open>pre/pay/submit.php\<close> or \<open>pre/submit.php\<close> (with
  no dot in \<open>pre\<close>) gives \<open>pre/api.php\<close> on the same protocol and host, and a path without
  \<open>/submit.php\<close> is kept. If the address so derived ends in \<open>api.php\<close> it is the one used;
  if it does not, the query goes to \<open>/epay/api.php\<close> on the protocol and host of the
  submission endpoint, not to the fixed address. The address used always ends in
  \<open>api.php\<close>.
\<close>

theorem apiUrl_derivation:
  "(parseURL e (payUrl e) = None \<longrightarrow> apiUrl e = ''https://credit.linux.do/epay/api.php'') \<and>
   (parseURL e (payUrl e) = Some u \<longrightarrow>
      (pathname u = pre @ ''/pay/submit.php'' \<and> CHR ''.'' \<notin> set pre \<longrightarrow>
         apiUrl e = protocol u @ ''//'' @ host u @ pre @ ''/api.php'') \<and>
      (pathname u = pre @ ''/submit.php'' \<and> CHR ''.'' \<notin> set pre \<and> \<not> suffix ''/pay'' pre \<longrightarrow>
         apiUrl e = protocol u @ ''//'' @ host u @ pre @ ''/api.php'') \<and>
      (\<not> sublist ''/submit.php'' (pathname u) \<longrightarrow>
         derivedUrl u = protocol u @ ''//'' @ host u @ pathname u) \<and>
      (endsWith (derivedUrl u) ''api.php'' \<longrightarrow> apiUrl e = derivedUrl u) \<and>
      (\<not> endsWith (derivedUrl u) ''api.php'' \<longrightarrow>
         apiUrl e = protocol u @ ''//'' @ host u @ ''/epay/api.php'')) \<and>
   endsWith (apiUrl e) ''api.php'' \<and>
   (PAY_URL e = None \<or> PAY_URL e = Some [] \<longrightarrow>
      payUrl e = ''https://credit.linux.do/epay/pay/submit.php'') \<and>
   (PAY_URL e = Some p \<and> p \<noteq> [] \<longrightarrow> payUrl e = p)"
proof -
  have ends: "endsWith (xs @ ''/api.php'') ''api.php''" for xs
  proof -
    have "xs @ ''/api.php'' = (xs @ ''/'') @ ''api.php''"
      by simp
    then show ?thesis
      unfolding endsWith_def by (metis suffix_appendI suffix_order.order_refl)
  qed
  have 1: "apiUrl e = protocol u @ ''//'' @ host u @ pre @ ''/api.php''"
    if "parseURL e (payUrl e) = Some u" and "pathname u = pre @ ''/pay/submit.php''"
      and "CHR ''.'' \<notin> set pre"
  proof -
    have d: "derivedUrl u = (protocol u @ ''//'' @ host u @ pre) @ ''/api.php''"
      using derived_pay_submit [OF that(2,3)] by simp
    have "endsWith (derivedUrl u) ''api.php''"
      unfolding d by (rule ends)
    then show ?thesis
      using that(1) d by (simp add: apiUrl_def)
  qed
  have 2: "apiUrl e = protocol u @ ''//'' @ host u @ pre @ ''/api.php''"
    if "parseURL e (payUrl e) = Some u" and "pathname u = pre @ ''/submit.php''"
      and "CHR ''.'' \<notin> set pre" and "\<not> suffix ''/pay'' pre"
  proof -
    have d: "derivedUrl u = (protocol u @ ''//'' @ host u @ pre) @ ''/api.php''"
      using derived_submit [OF that(2,3,4)] by simp
    have "endsWith (derivedUrl u) ''api.php''"
      unfolding d by (rule ends)
    then show ?thesis
      using that(1) d by (simp add: apiUrl_def)
  qed
  have 3: "endsWith (apiUrl e) ''api.php''"
  proof (cases "parseURL e (payUrl e)")
    case None
    have "endsWith (''https://credit.linux.do/epay'' @ ''/api.php'') ''api.php''"
      by (rule ends)
    with None show ?thesis
      by (simp add: apiUrl_def)
  next
    case (Some v)
    have "endsWith ((protocol v @ ''//'' @ host v @ ''/epay'') @ ''/api.php'') ''api.php''"
      by (rule ends)
    with Some show ?thesis
      by (simp add: apiUrl_def)
  qed
  show ?thesis
    using 1 2 3 derived_other [of u]
    by (auto simp: apiUrl_def payUrl_def or_else_def truthy_def)
qed

text \<open>
  On the example: without \<open>PAY_URL\<close> the path \<open>/epay/pay/submit.php\<close> of the default
  submission endpoint is rewritten to \<open>/epay/api.php\<close>; an address that does not parse
  gives the fixed address.
\<close>

theorem apiUrl_derivation_witness:
  "parseURL env_ex (payUrl env_ex) = Some url_submit \<and>
   pathname url_submit = ''/epay'' @ ''/pay/submit.php'' \<and> CHR ''.'' \<notin> set ''/epay'' \<and>
   apiUrl env_ex = ''https://credit.linux.do/epay/api.php'' \<and>
   parseURL (env_ex\<lparr>PAY_URL := Some ''not a url''\<rparr>) (payUrl (env_ex\<lparr>PAY_URL := Some ''not a url''\<rparr>)) =
     None \<and>
   apiUrl (env_ex\<lparr>PAY_URL := Some ''not a url''\<rparr>) = ''https://credit.linux.do/epay/api.php''"
proof -
  let ?bad = "env_ex\<lparr>PAY_URL := Some ''not a url''\<rparr>"
  have p: "parseURL env_ex (payUrl env_ex) = Some url_submit" by code_simp
  have q: "pathname url_submit = ''/epay'' @ ''/pay/submit.php''" by code_simp
  have n: "CHR ''.'' \<notin> set ''/epay''" by simp
  have b: "parseURL ?bad (payUrl ?bad) = None" by code_simp
  have "apiUrl env_ex = protocol url_submit @ ''//'' @ host url_submit @ ''/epay'' @ ''/api.php''"
    using apiUrl_derivation [where e = env_ex and u = url_submit and pre = "''/epay''"] p q n
    by blast
  then have 1: "apiUrl env_ex = ''https://credit.linux.do/epay/api.php''"
    by (simp add: url_submit_def)
  have 2: "apiUrl ?bad = ''https://credit.linux.do/epay/api.php''"
    using apiUrl_derivation [where e = ?bad] b
    by blast
  show ?thesis
    using p q n b 1 2 by blast
qed

text \<open>
  The claim as it is written fails where the derived address does not end in \<open>api.php\<close>:
  with the submission endpoint \<open>https://pay.example.com/gateway\<close> the query goes to
  \<open>https://pay.example.com/epay/api.php\<close>, not to the fixed address.
\<close>

theorem apiUrl_fallback_counterexample:
  "PAY_URL env_gateway = Some ''https://pay.example.com/gateway'' \<and>
   parseURL env_gateway (payUrl env_gateway) = Some url_gateway \<and>
   derivedUrl url_gateway = ''https://pay.example.com/gateway'' \<and>
   \<not> endsWith (derivedUrl url_gateway) ''api.php'' \<and>
   apiUrl env_gateway = ''https://pay.example.com/epay/api.php'' \<and>
   apiUrl env_gateway \<noteq> ''https://credit.linux.do/epay/api.php''"
  by code_simp

section \<open>The shop logo\<close>

text \<open>
  Claim C10. The image source of \<open>ShopLogo\<close> is the trimmed logo when that is not empty,
  else the favicon address, which is \<open>origin/favicon.ico\<close> for the origin of \<open>url\<close> and the
  empty string when \<open>url\<close> does not parse. With a non-empty source and no load error the
  component renders the image; with an empty source, or after a load error, it renders
  the fallback letter: the first character of the trimmed name, that is the first
  character of the name that is not white space, or \<open>L\<close> when the name is absent, empty
  or blank.
\<close>

theorem ShopLogo_render:
  "logoSrc parse p =
     (case logo p of
        None \<Rightarrow> getFaviconUrl parse (url p)
      | Some l \<Rightarrow> if trim l \<noteq> [] then trim l else getFaviconUrl parse (url p)) \<and>
   (parse (url p) = None \<longrightarrow> getFaviconUrl parse (url p) = []) \<and>
   (parse (url p) = Some u \<longrightarrow> getFaviconUrl parse (url p) = origin u @ ''/favicon.ico'') \<and>
   (logoSrc parse p \<noteq> [] \<and> \<not> err \<longrightarrow> ShopLogo parse p err = Img (logoSrc parse p)) \<and>
   (logoSrc parse p = [] \<or> err \<longrightarrow> ShopLogo parse p err = Letter (fallbackLetter (name p))) \<and>
   fallbackLetter (name p) =
     (case name p of
        None \<Rightarrow> ''L''
      | Some n \<Rightarrow> if \<forall>c\<in>set n. isWhiteSpace c then ''L''
                  else [hd (dropWhile isWhiteSpace n)]) \<and>
   (\<forall>n. name p = Some n \<and> trim n \<noteq> [] \<longrightarrow> fallbackLetter (name p) = [hd (trim n)])"
proof -
  have letter: "fallbackLetter (Some n) =
        (if \<forall>c\<in>set n. isWhiteSpace c then ''L'' else [hd (dropWhile isWhiteSpace n)])" for n
  proof (cases "trim n")
    case Nil
    then show ?thesis
      by (simp add: fallbackLetter_def or_else_def truthy_def trim_Nil_iff [symmetric])
  next
    case (Cons c m)
    then have "take 1 (trim n) = [hd (trim n)]"
      by simp
    with Cons show ?thesis
      by (simp add: fallbackLetter_def or_else_def truthy_def trim_Nil_iff [symmetric]
            hd_trim [symmetric])
  qed
  have first: "fallbackLetter (Some n) = [hd (trim n)]" if "trim n \<noteq> []" for n
    using that letter [of n] by (simp add: trim_Nil_iff [symmetric] hd_trim)
  have "fallbackLetter None = ''L''"
    by (simp add: fallbackLetter_def or_else_def)
  moreover have "trim [] = []"
    by (simp add: trim_def)
  ultimately show ?thesis
    using letter first
    by (auto simp: logoSrc_def or_else_def truthy_def getFaviconUrl_def ShopLogo_def Let_def
         split: option.splits)
qed

text \<open>
  On the example: a blank logo and an address that does not parse leave no source, and the
  shop named \<open>shop\<close> (after two blanks) shows the letter \<open>s\<close>; with an address that parses
  the favicon of its origin is shown, until the image fails to load; a logo is shown
  trimmed; a blank name gives \<open>L\<close>.
\<close>

theorem ShopLogo_render_witness:
  "parse_ex (url props_ex) = None \<and> logoSrc parse_ex props_ex = [] \<and>
   ShopLogo parse_ex props_ex False = Letter ''s'' \<and>
   parse_ex (url (props_ex\<lparr>url := ''https://pay.example.com/gateway''\<rparr>)) = Some url_gateway \<and>
   ShopLogo parse_ex (props_ex\<lparr>url := ''https://pay.example.com/gateway''\<rparr>) False =
     Img ''https://pay.example.com/favicon.ico'' \<and>
   ShopLogo parse_ex (props_ex\<lparr>url := ''https://pay.example.com/gateway''\<rparr>) True = Letter ''s'' \<and>
   ShopLogo parse_ex (props_ex\<lparr>logo := Some '' /logo.png ''\<rparr>) False = Img ''/logo.png'' \<and>
   ShopLogo parse_ex (props_ex\<lparr>name := Some ''  ''\<rparr>) False = Letter ''L''"
proof -
  let ?g = "props_ex\<lparr>url := ''https://pay.example.com/gateway''\<rparr>"
  let ?l = "props_ex\<lparr>logo := Some '' /logo.png ''\<rparr>"
  let ?b = "props_ex\<lparr>name := Some ''  ''\<rparr>"
  have p0: "parse_ex (url props_ex) = None" by code_simp
  have pg: "parse_ex (url ?g) = Some url_gateway" by code_simp
  have s0: "logoSrc parse_ex props_ex = []" by code_simp
  have sg: "logoSrc parse_ex ?g = ''https://pay.example.com/favicon.ico''" by code_simp
  have sl: "logoSrc parse_ex ?l = ''/logo.png''" by code_simp
  have sb: "logoSrc parse_ex ?b = []" by code_simp
  have f0: "fallbackLetter (name props_ex) = ''s''" by code_simp
  have fb: "fallbackLetter (name ?b) = ''L''" by code_simp
  have 1: "ShopLogo parse_ex props_ex False = Letter ''s''"
    using ShopLogo_render [where parse = parse_ex and p = props_ex and err = False] s0 f0
    by simp
  have 2: "ShopLogo parse_ex ?g False = Img ''https://pay.example.com/favicon.ico''"
    using ShopLogo_render [where parse = parse_ex and p = ?g and err = False] sg
    by simp
  have 3: "ShopLogo parse_ex ?g True = Letter ''s''"
    using ShopLogo_render [where parse = parse_ex and p = ?g and err = True] f0
    by simp
  have 4: "ShopLogo parse_ex ?l False = Img ''/logo.png''"
    using ShopLogo_render [where parse = parse_ex and p = ?l and err = False] sl
    by simp
  have 5: "ShopLogo parse_ex ?b False = Letter ''L''"
    using ShopLogo_render [where parse = parse_ex and p = ?b and err = False] sb fb
    by simp
  show ?thesis
    using p0 s0 1 pg 2 3 4 5 by blast
qed

end
